theory Spec2Isabelle
  imports Complex_Main "HOL-Library.Sublist" "HOL-Library.Multiset" "HOL-Library.Log_Nat"
begin

section \<open>Campaign service: data model\<close>

text \<open>
  Identifiers are strings, as in the service (\<open>campaignId\<close>, \<open>userId\<close>). Dates are
  integer timestamps; \<open>new Date()\<close> is the parameter \<open>now\<close> of the operations
  that read the clock.
\<close>

type_synonym cid = string
type_synonym uid = string

text \<open>
  Modelled from the spec: the Prisma schema (the enum declarations of the stored
  models) is not part of the sources. The code names the values \<open>ACTIVE\<close> and
  \<open>ENDED\<close>, the spec adds \<open>DRAFT\<close>.
\<close>

datatype status = DRAFT | ACTIVE | ENDED

datatype campaignType = AUTO_JOIN | WAITLIST

datatype role = CREATOR | ADMIN | MEMBER | PENDING

text \<open>The status of a waitlist response and of a campaign application.\<close>

datatype reviewStatus = ST_PENDING | ST_APPROVED | ST_REJECTED

datatype platform = TIKTOK | INSTAGRAM | YOUTUBE | TWITTER

text \<open>
  The errors of \<open>lib/errors\<close> with their messages, the exception of the Prisma client
  with its error code (\<open>P2002\<close>: unique constraint, \<open>P2025\<close>: record not found), and
  the failure of \<open>publisher.publish\<close>.
\<close>

datatype error =
    NotFound string
  | BadRequest string
  | Forbidden string
  | Conflict string
  | PrismaError string
  | PublishError

record authUser =
  userId :: uid
  isStaff :: bool

section \<open>Platform strings\<close>

text \<open>
  \<open>String.prototype.toLowerCase\<close> belongs to the JavaScript runtime and follows the
  case mappings of Unicode, which are not part of the sources: it is the parameter
  \<open>toLowerCase\<close> of the functions that call it. A string is the list of the bytes of its
  UTF-8 encoding. On a string of ASCII characters the runtime's function maps the letters
  \<open>A\<close> to \<open>Z\<close> to \<open>a\<close> to \<open>z\<close> and keeps every other character
  (\<open>asciiLowerCase\<close>); the properties that depend on lower-casing assume this of the
  parameter, and nothing about other strings.
\<close>

definition lowerChar :: "char \<Rightarrow> char" where
  "lowerChar c =
     (case map_of (zip ''ABCDEFGHIJKLMNOPQRSTUVWXYZ'' ''abcdefghijklmnopqrstuvwxyz'') c of
        Some d \<Rightarrow> d
      | None \<Rightarrow> c)"

definition asciiLowerCase :: "string \<Rightarrow> string" where
  "asciiLowerCase s = map lowerChar s"

definition isAscii :: "string \<Rightarrow> bool" where
  "isAscii s = list_all (\<lambda>c. (of_char c :: nat) < 128) s"

text \<open>\<open>v.includes(sub)\<close> of JavaScript: \<open>sub\<close> occurs in \<open>v\<close> as a contiguous substring.\<close>

fun str_includes :: "string \<Rightarrow> string \<Rightarrow> bool" where
  "str_includes [] sub = (sub = [])"
| "str_includes (c # cs) sub = (take (length sub) (c # cs) = sub \<or> str_includes cs sub)"

text \<open>The body of the arrow function of \<open>mapPlatforms\<close>, on one string.\<close>

definition mapPlatform :: "(string \<Rightarrow> string) \<Rightarrow> string \<Rightarrow> error + platform" where
  "mapPlatform toLowerCase p =
     (let v = toLowerCase p in
      if str_includes v ''tiktok'' \<or> v = ''tik tok'' then Inr TIKTOK
      else if str_includes v ''instagram'' \<or> v = ''insta'' then Inr INSTAGRAM
      else if str_includes v ''youtube'' \<or> v = ''yt'' then Inr YOUTUBE
      else if str_includes v ''twitter'' \<or> v = ''x'' then Inr TWITTER
      else Inl (BadRequest (''Invalid platform: '' @ p)))"

text \<open>\<open>platforms.map(...)\<close>: the first string that throws ends the call.\<close>

fun mapPlatforms :: "(string \<Rightarrow> string) \<Rightarrow> string list \<Rightarrow> error + platform list" where
  "mapPlatforms toLowerCase [] = Inr []"
| "mapPlatforms toLowerCase (p # ps) =
     (case mapPlatform toLowerCase p of
        Inl e \<Rightarrow> Inl e
      | Inr x \<Rightarrow> (case mapPlatforms toLowerCase ps of Inl e \<Rightarrow> Inl e | Inr xs \<Rightarrow> Inr (x # xs)))"

section \<open>JavaScript numbers\<close>

text \<open>
  A JavaScript number is an IEEE 754 double; a finite one is modelled by its value, a
  rational. The result of an arithmetic operation is the exact result rounded to the
  nearest double, a tie going to the double with an even significand
  (\<open>roundToDouble\<close>). For a value with \<open>2 ^ e \<le> |x| < 2 ^ (e + 1)\<close> the doubles are
  the multiples of \<open>2 ^ (e - 52)\<close>; below \<open>2 ^ (-1022)\<close> they are the multiples of
  \<open>2 ^ (-1074)\<close>. Values beyond the largest double do not occur in the operations
  modelled here.
\<close>

type_synonym number = rat

text \<open>The exponent \<open>e\<close> with \<open>2 ^ e \<le> |x| < 2 ^ (e + 1)\<close>, for \<open>x\<close> other than 0.\<close>

definition ilog2 :: "rat \<Rightarrow> int" where
  "ilog2 x =
     (let e0 = bitlen (fst (quotient_of \<bar>x\<bar>)) - bitlen (snd (quotient_of \<bar>x\<bar>))
      in if 2 powi e0 \<le> \<bar>x\<bar> then e0 else e0 - 1)"

definition roundHalfEven :: "rat \<Rightarrow> int" where
  "roundHalfEven y =
     (let f = \<lfloor>y\<rfloor>; r = y - of_int f
      in if r < 1 / 2 then f else if 1 / 2 < r then f + 1 else if even f then f else f + 1)"

definition roundToDouble :: "rat \<Rightarrow> number" where
  "roundToDouble x =
     (if x = 0 then 0
      else let u = 2 powi (max (ilog2 x) (- 1022) - 52)
           in of_int (roundHalfEven (x / u)) * u)"

text \<open>The literal \<open>0.1\<close>: the double nearest to one tenth, \<open>3602879701896397 / 2 ^ 55\<close>.\<close>

definition double_0_1 :: number where
  "double_0_1 = 3602879701896397 / 36028797018963968"

text \<open>
  \<open>Math.round\<close>: the integer nearest to the number, a tie going to the larger one.
\<close>

definition Math_round :: "number \<Rightarrow> int" where
  "Math_round x = \<lfloor>x + 1 / 2\<rfloor>"

section \<open>The store\<close>

text \<open>
  The columns of a campaign that the operations read or write. The purely descriptive
  columns (description, category, image, tags, hashtags, languages, payment texts, clip
  limits, requirements, resources) are only copied from the input to the row and are left
  out. \<open>totalBudget\<close> and \<open>remainingBudget\<close> are JavaScript numbers;
  \<open>platformFee\<close> is the integer that \<open>Math.round\<close> returns; the counters and the
  other amounts, which the service only copies or increments by one, are integers.
\<close>

record campaign =
  title :: string
  platforms :: "platform list"
  startDate :: int
  endDate :: int
  status :: status
  campaignType :: campaignType
  editorSlots :: int
  totalBudget :: number
  platformFee :: int
  remainingBudget :: number
  spentBudget :: int
  isFunded :: bool
  approvedClips :: int
  pendingClips :: int
  rejectedClips :: int
  totalViews :: int
  enableLeaderboard :: bool
  isPrivate :: bool
  archivedAt :: "int option"
  createdBy :: uid
  studioId :: "string option"
  published :: bool

record campaignPermissions =
  adminsCanReviewClips :: bool
  adminsCanManageTeam :: bool
  adminsCanEditCampaign :: bool
  adminsCanAddBudget :: bool
  adminsCanDeleteCampaign :: bool

record waitlistResponse =
  answers :: "(string \<times> string) list"
  responseStatus :: reviewStatus
  reviewedBy :: "uid option"
  reviewedAt :: "int option"
  reviewNote :: "string option"

record campaignApplication =
  applicationCampaign :: cid
  applicationUser :: uid
  applicationStatus :: reviewStatus
  decidedAt :: "int option"

datatype endReason = MANUAL | DATE_REACHED

datatype joinMethod = DIRECT | VIA_WAITLIST

datatype leftReason = KICKED | BANNED

text \<open>The payloads of \<open>CampaignEvents\<close>, in the order of their fields in the source.\<close>

datatype event =
    EvCreated cid uid string status "string option"
  | EvStatusChanged cid status status uid
  | EvFunded cid number number uid
  | EvEnded cid endReason bool int int int
  | EvParticipantJoined cid uid role joinMethod
  | EvParticipantLeft cid uid leftReason

text \<open>
  One list of rows per table, in insertion order. A table with a unique key is a list of
  (key, row) pairs; \<open>outbox\<close> holds the events the publisher has accepted.
\<close>

record store =
  campaigns :: "(cid \<times> campaign) list"
  permissionsTable :: "(cid \<times> campaignPermissions) list"
  participants :: "((cid \<times> uid) \<times> role) list"
  bans :: "((cid \<times> uid) \<times> string option) list"
  responses :: "((cid \<times> uid) \<times> waitlistResponse) list"
  applications :: "campaignApplication list"
  questions :: "(cid \<times> string \<times> int) list"
  prizeDistributions :: "(cid \<times> int \<times> int \<times> string) list"
  invites :: "(cid \<times> string \<times> reviewStatus) list"
  outbox :: "event list"

text \<open>
  An operation returns its value or the error it throws, together with the store it
  leaves: an exception does not undo the writes made before it.
\<close>

type_synonym 'a result = "(error + 'a) \<times> store"

text \<open>Sequencing of two awaited steps: the second runs only if the first did not throw.\<close>

definition andThen :: "(store \<Rightarrow> 'a result) \<Rightarrow> ('a \<Rightarrow> store \<Rightarrow> 'b result) \<Rightarrow> store \<Rightarrow> 'b result" where
  "andThen m f s = (case m s of (Inl e, s') \<Rightarrow> (Inl e, s') | (Inr a, s') \<Rightarrow> f a s')"

definition return :: "'a \<Rightarrow> store \<Rightarrow> 'a result" where
  "return a s = (Inr a, s)"

subsection \<open>The storage operations\<close>

text \<open>Rows of a keyed table: update and removal of the rows whose key satisfies a test.\<close>

definition updateWhere :: "('k \<Rightarrow> bool) \<Rightarrow> ('v \<Rightarrow> 'v) \<Rightarrow> ('k \<times> 'v) list \<Rightarrow> ('k \<times> 'v) list" where
  "updateWhere P f rows = map (\<lambda>(k, v). if P k then (k, f v) else (k, v)) rows"

definition deleteWhere :: "('k \<Rightarrow> bool) \<Rightarrow> ('k \<times> 'v) list \<Rightarrow> ('k \<times> 'v) list" where
  "deleteWhere P rows = filter (\<lambda>(k, v). \<not> P k) rows"

definition campaign_findUnique :: "store \<Rightarrow> cid \<Rightarrow> campaign option" where
  "campaign_findUnique s campaignId = map_of (campaigns s) campaignId"

definition campaign_create :: "cid \<Rightarrow> campaign \<Rightarrow> store \<Rightarrow> campaign result" where
  "campaign_create campaignId c s =
     (if map_of (campaigns s) campaignId \<noteq> None then (Inl (PrismaError ''P2002''), s)
      else (Inr c, s\<lparr>campaigns := campaigns s @ [(campaignId, c)]\<rparr>))"

definition campaign_update :: "cid \<Rightarrow> (campaign \<Rightarrow> campaign) \<Rightarrow> store \<Rightarrow> campaign result" where
  "campaign_update campaignId f s =
     (case map_of (campaigns s) campaignId of
        None \<Rightarrow> (Inl (PrismaError ''P2025''), s)
      | Some c \<Rightarrow> (Inr (f c), s\<lparr>campaigns := updateWhere (\<lambda>k. k = campaignId) f (campaigns s)\<rparr>))"

text \<open>
  Modelled from the spec: the schema's relations are not part of the sources; the rows
  that reference a campaign are deleted with it (the cascade of the storage layer).
\<close>

definition campaign_delete :: "cid \<Rightarrow> store \<Rightarrow> campaign result" where
  "campaign_delete campaignId s =
     (case map_of (campaigns s) campaignId of
        None \<Rightarrow> (Inl (PrismaError ''P2025''), s)
      | Some c \<Rightarrow>
          (Inr c,
           s\<lparr>campaigns := deleteWhere (\<lambda>k. k = campaignId) (campaigns s),
             permissionsTable := deleteWhere (\<lambda>k. k = campaignId) (permissionsTable s),
             participants := deleteWhere (\<lambda>k. fst k = campaignId) (participants s),
             bans := deleteWhere (\<lambda>k. fst k = campaignId) (bans s),
             responses := deleteWhere (\<lambda>k. fst k = campaignId) (responses s),
             applications := filter (\<lambda>a. applicationCampaign a \<noteq> campaignId) (applications s),
             questions := deleteWhere (\<lambda>k. k = campaignId) (questions s),
             prizeDistributions := deleteWhere (\<lambda>k. k = campaignId) (prizeDistributions s),
             invites := deleteWhere (\<lambda>k. k = campaignId) (invites s)\<rparr>))"

definition participant_findUnique :: "store \<Rightarrow> cid \<Rightarrow> uid \<Rightarrow> role option" where
  "participant_findUnique s campaignId u = map_of (participants s) (campaignId, u)"

text \<open>\<open>_count.participants\<close>: every participant row of the campaign, whatever its role.\<close>

definition participant_count :: "store \<Rightarrow> cid \<Rightarrow> int" where
  "participant_count s campaignId =
     int (length (filter (\<lambda>(k, r). fst k = campaignId) (participants s)))"

definition participant_create :: "cid \<Rightarrow> uid \<Rightarrow> role \<Rightarrow> store \<Rightarrow> unit result" where
  "participant_create campaignId u r s =
     (if map_of (participants s) (campaignId, u) \<noteq> None then (Inl (PrismaError ''P2002''), s)
      else (Inr (), s\<lparr>participants := participants s @ [((campaignId, u), r)]\<rparr>))"

definition participant_update :: "cid \<Rightarrow> uid \<Rightarrow> role \<Rightarrow> store \<Rightarrow> role result" where
  "participant_update campaignId u r s =
     (case map_of (participants s) (campaignId, u) of
        None \<Rightarrow> (Inl (PrismaError ''P2025''), s)
      | Some old \<Rightarrow>
          (Inr r,
           s\<lparr>participants := updateWhere (\<lambda>k. k = (campaignId, u)) (\<lambda>_. r) (participants s)\<rparr>))"

definition participant_delete :: "cid \<Rightarrow> uid \<Rightarrow> store \<Rightarrow> unit result" where
  "participant_delete campaignId u s =
     (case map_of (participants s) (campaignId, u) of
        None \<Rightarrow> (Inl (PrismaError ''P2025''), s)
      | Some old \<Rightarrow>
          (Inr (), s\<lparr>participants := deleteWhere (\<lambda>k. k = (campaignId, u)) (participants s)\<rparr>))"

definition participant_deleteMany :: "cid \<Rightarrow> uid \<Rightarrow> store \<Rightarrow> unit result" where
  "participant_deleteMany campaignId u s =
     (Inr (), s\<lparr>participants := deleteWhere (\<lambda>k. k = (campaignId, u)) (participants s)\<rparr>)"

definition ban_findUnique :: "store \<Rightarrow> cid \<Rightarrow> uid \<Rightarrow> string option option" where
  "ban_findUnique s campaignId u = map_of (bans s) (campaignId, u)"

definition ban_create :: "cid \<Rightarrow> uid \<Rightarrow> string option \<Rightarrow> store \<Rightarrow> unit result" where
  "ban_create campaignId u reason s =
     (if map_of (bans s) (campaignId, u) \<noteq> None then (Inl (PrismaError ''P2002''), s)
      else (Inr (), s\<lparr>bans := bans s @ [((campaignId, u), reason)]\<rparr>))"

definition response_findUnique :: "store \<Rightarrow> cid \<Rightarrow> uid \<Rightarrow> waitlistResponse option" where
  "response_findUnique s campaignId u = map_of (responses s) (campaignId, u)"

definition response_create :: "cid \<Rightarrow> uid \<Rightarrow> waitlistResponse \<Rightarrow> store \<Rightarrow> unit result" where
  "response_create campaignId u r s =
     (if map_of (responses s) (campaignId, u) \<noteq> None then (Inl (PrismaError ''P2002''), s)
      else (Inr (), s\<lparr>responses := responses s @ [((campaignId, u), r)]\<rparr>))"

definition response_updateMany ::
  "cid \<Rightarrow> uid \<Rightarrow> (waitlistResponse \<Rightarrow> waitlistResponse) \<Rightarrow> store \<Rightarrow> unit result" where
  "response_updateMany campaignId u f s =
     (Inr (), s\<lparr>responses := updateWhere (\<lambda>k. k = (campaignId, u)) f (responses s)\<rparr>)"

definition application_updateMany ::
  "(campaignApplication \<Rightarrow> bool) \<Rightarrow> (campaignApplication \<Rightarrow> campaignApplication) \<Rightarrow>
   store \<Rightarrow> unit result" where
  "application_updateMany P f s =
     (Inr (), s\<lparr>applications := map (\<lambda>a. if P a then f a else a) (applications s)\<rparr>)"

text \<open>
  \<open>publisher.publish(event)\<close>: the publisher is outside the service. The parameter
  \<open>pub\<close> tells for each event whether the publisher accepts it; a refused event makes
  \<open>publish\<close> throw.
\<close>

definition publish :: "(event \<Rightarrow> bool) \<Rightarrow> event \<Rightarrow> store \<Rightarrow> unit result" where
  "publish pub e s =
     (if pub e then (Inr (), s\<lparr>outbox := outbox s @ [e]\<rparr>) else (Inl PublishError, s))"

section \<open>The campaign service\<close>

text \<open>\<open>a ?? b\<close>: the value of \<open>a\<close> unless it is absent.\<close>

definition nullish :: "'a option \<Rightarrow> 'a \<Rightarrow> 'a" where
  "nullish a b = (case a of None \<Rightarrow> b | Some v \<Rightarrow> v)"

definition getCampaign :: "store \<Rightarrow> cid \<Rightarrow> error + (campaign \<times> campaignPermissions option)" where
  "getCampaign s campaignId =
     (case campaign_findUnique s campaignId of
        None \<Rightarrow> Inl (NotFound (''Campaign '' @ campaignId @ '' not found''))
      | Some c \<Rightarrow> Inr (c, map_of (permissionsTable s) campaignId))"

text \<open>The input of \<open>createCampaign\<close>, without its descriptive fields.\<close>

record createData =
  dataTitle :: string
  dataPlatforms :: "string list"
  dataStartDate :: int
  dataEndDate :: int
  dataTotalBudget :: "number option"
  dataCampaignType :: "campaignType option"
  dataEditorSlots :: "int option"
  dataEnableLeaderboard :: "bool option"
  dataLeaderboardRanks :: "(string \<times> int) list option"
  dataIsPrivate :: "bool option"
  dataInvitedUsers :: "string list option"
  dataStudioId :: "string option"

text \<open>
  The loop that creates one prize row per rank, \<open>position\<close> being \<open>i + 1\<close>; a rank is
  the pair of its label (\<open>rank.position\<close>) and its reward.
\<close>

fun createPrizes :: "cid \<Rightarrow> (string \<times> int) list \<Rightarrow> nat \<Rightarrow> store \<Rightarrow> unit result" where
  "createPrizes campaignId [] i s = (Inr (), s)"
| "createPrizes campaignId (rank # rest) i s =
     createPrizes campaignId rest (i + 1)
       (s\<lparr>prizeDistributions :=
            prizeDistributions s @ [(campaignId, int i + 1, snd rank, fst rank)]\<rparr>)"

fun createInvites :: "cid \<Rightarrow> string list \<Rightarrow> store \<Rightarrow> unit result" where
  "createInvites campaignId [] s = (Inr (), s)"
| "createInvites campaignId (discordUserId # rest) s =
     createInvites campaignId rest
       (s\<lparr>invites := invites s @ [(campaignId, discordUserId, ST_PENDING)]\<rparr>)"

text \<open>
  \<open>createCampaign\<close>. The identifier \<open>newId\<close> is the one the store generates for the row,
  and \<open>dflt\<close> holds the schema's defaults of the columns the call does not set (status,
  fee, remaining and spent budget, funded flag, counters, archive date): the schema is not
  part of the sources; \<open>toLowerCase\<close> is the runtime's function that
  \<open>mapPlatforms\<close> calls.
\<close>

definition createCampaign ::
  "(string \<Rightarrow> string) \<Rightarrow> (event \<Rightarrow> bool) \<Rightarrow> cid \<Rightarrow> campaign \<Rightarrow> createData \<Rightarrow> authUser \<Rightarrow>
   store \<Rightarrow> campaign result" where
  "createCampaign toLowerCase pub newId dflt data creator s =
     (case mapPlatforms toLowerCase (dataPlatforms data) of
        Inl e \<Rightarrow> (Inl e, s)
      | Inr pfs \<Rightarrow>
          andThen
            (campaign_create newId
               (dflt\<lparr>title := dataTitle data,
                     platforms := pfs,
                     startDate := dataStartDate data,
                     endDate := dataEndDate data,
                     totalBudget := nullish (dataTotalBudget data) 0,
                     campaignType := nullish (dataCampaignType data) AUTO_JOIN,
                     editorSlots := nullish (dataEditorSlots data) 5,
                     enableLeaderboard := nullish (dataEnableLeaderboard data) False,
                     isPrivate := nullish (dataIsPrivate data) False,
                     createdBy := userId creator,
                     studioId := dataStudioId data,
                     published := False\<rparr>))
            (\<lambda>c. andThen (participant_create newId (userId creator) CREATOR)
            (\<lambda>_. andThen
                    (if dataEnableLeaderboard data = Some True
                        \<and> nullish (dataLeaderboardRanks data) [] \<noteq> []
                     then createPrizes newId (nullish (dataLeaderboardRanks data) []) 0
                     else return ())
            (\<lambda>_. andThen
                    (if dataIsPrivate data = Some True
                        \<and> nullish (dataInvitedUsers data) [] \<noteq> []
                     then createInvites newId (nullish (dataInvitedUsers data) [])
                     else return ())
            (\<lambda>_. andThen
                    (publish pub (EvCreated newId (userId creator) (title c) (status c) (studioId c)))
            (\<lambda>_. return c))))) s)"

text \<open>
  The patch of \<open>updateCampaign\<close> (\<open>data: Record<string, any>\<close>): each column may be
  present or absent, and so may the list of prize distributions.
\<close>

record patch =
  patchTitle :: "string option"
  patchPlatforms :: "platform list option"
  patchStartDate :: "int option"
  patchEndDate :: "int option"
  patchStatus :: "status option"
  patchCampaignType :: "campaignType option"
  patchEditorSlots :: "int option"
  patchTotalBudget :: "number option"
  patchPlatformFee :: "int option"
  patchRemainingBudget :: "number option"
  patchSpentBudget :: "int option"
  patchIsFunded :: "bool option"
  patchApprovedClips :: "int option"
  patchPendingClips :: "int option"
  patchRejectedClips :: "int option"
  patchTotalViews :: "int option"
  patchEnableLeaderboard :: "bool option"
  patchIsPrivate :: "bool option"
  patchArchivedAt :: "int option option"
  patchCreatedBy :: "uid option"
  patchStudioId :: "string option option"
  patchPublished :: "bool option"
  patchPrizeDistributions :: "(string \<times> int) list option"

text \<open>\<open>prisma.campaign.update({ data })\<close>: every column present in the patch is written.\<close>

definition applyPatch :: "patch \<Rightarrow> campaign \<Rightarrow> campaign" where
  "applyPatch data c =
     c\<lparr>title := nullish (patchTitle data) (title c),
       platforms := nullish (patchPlatforms data) (platforms c),
       startDate := nullish (patchStartDate data) (startDate c),
       endDate := nullish (patchEndDate data) (endDate c),
       status := nullish (patchStatus data) (status c),
       campaignType := nullish (patchCampaignType data) (campaignType c),
       editorSlots := nullish (patchEditorSlots data) (editorSlots c),
       totalBudget := nullish (patchTotalBudget data) (totalBudget c),
       platformFee := nullish (patchPlatformFee data) (platformFee c),
       remainingBudget := nullish (patchRemainingBudget data) (remainingBudget c),
       spentBudget := nullish (patchSpentBudget data) (spentBudget c),
       isFunded := nullish (patchIsFunded data) (isFunded c),
       approvedClips := nullish (patchApprovedClips data) (approvedClips c),
       pendingClips := nullish (patchPendingClips data) (pendingClips c),
       rejectedClips := nullish (patchRejectedClips data) (rejectedClips c),
       totalViews := nullish (patchTotalViews data) (totalViews c),
       enableLeaderboard := nullish (patchEnableLeaderboard data) (enableLeaderboard c),
       isPrivate := nullish (patchIsPrivate data) (isPrivate c),
       archivedAt := nullish (patchArchivedAt data) (archivedAt c),
       createdBy := nullish (patchCreatedBy data) (createdBy c),
       studioId := nullish (patchStudioId data) (studioId c),
       published := nullish (patchPublished data) (published c)\<rparr>"

definition updateCampaign ::
  "(event \<Rightarrow> bool) \<Rightarrow> cid \<Rightarrow> patch \<Rightarrow> authUser \<Rightarrow> store \<Rightarrow> campaign result" where
  "updateCampaign pub campaignId data user s =
     (case getCampaign s campaignId of
        Inl e \<Rightarrow> (Inl e, s)
      | Inr (c, permissions) \<Rightarrow>
          (let participant = participant_findUnique s campaignId (userId user);
               isCreator = (participant = Some CREATOR);
               isAdmin = (participant = Some ADMIN)
           in
           if \<not> isCreator \<and> \<not> isAdmin \<and> \<not> isStaff user
           then (Inl (Forbidden ''You do not have permission to edit this campaign''), s)
           else if isAdmin
                   \<and> \<not> (case permissions of None \<Rightarrow> False | Some p \<Rightarrow> adminsCanEditCampaign p)
           then (Inl (Forbidden ''Admins do not have permission to edit this campaign''), s)
           else
             andThen
               (case patchPrizeDistributions data of
                  None \<Rightarrow> return ()
                | Some ranks \<Rightarrow>
                    (\<lambda>s0. createPrizes campaignId ranks 0
                       (s0\<lparr>prizeDistributions :=
                             deleteWhere (\<lambda>k. k = campaignId) (prizeDistributions s0)\<rparr>)))
               (\<lambda>_. let oldStatus = status c in
                  andThen (campaign_update campaignId (applyPatch data))
                  (\<lambda>updated. andThen
                     (case patchStatus data of
                        None \<Rightarrow> return ()
                      | Some newStatus \<Rightarrow>
                          if newStatus \<noteq> oldStatus
                          then publish pub
                                 (EvStatusChanged campaignId oldStatus newStatus (userId user))
                          else return ())
                  (\<lambda>_. return updated))) s))"

definition deleteCampaign :: "cid \<Rightarrow> authUser \<Rightarrow> store \<Rightarrow> unit result" where
  "deleteCampaign campaignId user s =
     (case getCampaign s campaignId of
        Inl e \<Rightarrow> (Inl e, s)
      | Inr (c, permissions) \<Rightarrow>
          (let participant = participant_findUnique s campaignId (userId user);
               isCreator = (participant = Some CREATOR)
           in
           if \<not> isCreator \<and> \<not> isStaff user
              \<and> \<not> (case permissions of None \<Rightarrow> False | Some p \<Rightarrow> adminsCanDeleteCampaign p)
           then (Inl (Forbidden ''You do not have permission to delete this campaign''), s)
           else andThen (campaign_delete campaignId) (\<lambda>_. return ()) s))"

definition closeCampaign ::
  "(event \<Rightarrow> bool) \<Rightarrow> int \<Rightarrow> cid \<Rightarrow> authUser \<Rightarrow> store \<Rightarrow> campaign result" where
  "closeCampaign pub now campaignId user s =
     (case getCampaign s campaignId of
        Inl e \<Rightarrow> (Inl e, s)
      | Inr (c, permissions) \<Rightarrow>
          if status c = ENDED then (Inl (Conflict ''Campaign is already ended''), s)
          else if participant_findUnique s campaignId (userId user) \<noteq> Some CREATOR
                  \<and> \<not> isStaff user
          then (Inl (Forbidden ''Only the campaign creator can close a campaign''), s)
          else
            andThen
              (campaign_update campaignId (\<lambda>x. x\<lparr>status := ENDED, archivedAt := Some now\<rparr>))
              (\<lambda>updated. andThen
                 (publish pub
                    (EvEnded campaignId MANUAL (enableLeaderboard c) (approvedClips c)
                       (totalViews c) (spentBudget c)))
              (\<lambda>_. return updated)) s)"

text \<open>
  \<open>fundCampaign\<close>: the product \<open>campaign.totalBudget * 0.1\<close> and the difference
  \<open>campaign.totalBudget - platformFee\<close> are double operations.
\<close>

definition fundCampaign :: "(event \<Rightarrow> bool) \<Rightarrow> cid \<Rightarrow> authUser \<Rightarrow> store \<Rightarrow> campaign result" where
  "fundCampaign pub campaignId user s =
     (case getCampaign s campaignId of
        Inl e \<Rightarrow> (Inl e, s)
      | Inr (c, permissions) \<Rightarrow>
          if createdBy c \<noteq> userId user \<and> \<not> isStaff user
          then (Inl (Forbidden ''Only the campaign creator can fund a campaign''), s)
          else if isFunded c then (Inl (Conflict ''Campaign is already funded''), s)
          else
            (let fee = Math_round (roundToDouble (totalBudget c * double_0_1)) in
             andThen
               (campaign_update campaignId
                  (\<lambda>x. x\<lparr>isFunded := True, platformFee := fee,
                          remainingBudget := roundToDouble (totalBudget c - of_int fee)\<rparr>))
               (\<lambda>updated. andThen
                  (publish pub
                     (EvFunded campaignId (totalBudget c) (totalBudget c) (userId user)))
               (\<lambda>_. return updated)) s))"

text \<open>
  The loop of \<open>autoCloseCampaigns\<close> over the selected rows: the update and the
  publication of one campaign are inside the \<open>try\<close>, whose \<open>catch\<close> only logs; the
  counter is incremented after both.
\<close>

fun autoCloseLoop ::
  "(event \<Rightarrow> bool) \<Rightarrow> int \<Rightarrow> (cid \<times> campaign) list \<Rightarrow> nat \<Rightarrow> store \<Rightarrow> nat \<times> store" where
  "autoCloseLoop pub now [] closedCount s = (closedCount, s)"
| "autoCloseLoop pub now (row # rest) closedCount s =
     (case campaign_update (fst row) (\<lambda>x. x\<lparr>status := ENDED, archivedAt := Some now\<rparr>) s of
        (Inl e, s1) \<Rightarrow> autoCloseLoop pub now rest closedCount s1
      | (Inr u, s1) \<Rightarrow>
          (case publish pub
                  (EvEnded (fst row) DATE_REACHED (enableLeaderboard (snd row))
                     (approvedClips (snd row)) (totalViews (snd row)) (spentBudget (snd row))) s1 of
             (Inl e, s2) \<Rightarrow> autoCloseLoop pub now rest closedCount s2
           | (Inr u2, s2) \<Rightarrow> autoCloseLoop pub now rest (closedCount + 1) s2))"

definition expiredCampaigns :: "int \<Rightarrow> store \<Rightarrow> (cid \<times> campaign) list" where
  "expiredCampaigns now s =
     filter (\<lambda>(k, c). status c = ACTIVE \<and> endDate c < now) (campaigns s)"

definition autoCloseCampaigns :: "(event \<Rightarrow> bool) \<Rightarrow> int \<Rightarrow> store \<Rightarrow> nat \<times> store" where
  "autoCloseCampaigns pub now s = autoCloseLoop pub now (expiredCampaigns now s) 0 s"

section \<open>The participant service\<close>

definition getParticipantRole :: "store \<Rightarrow> cid \<Rightarrow> uid \<Rightarrow> role option" where
  "getParticipantRole s campaignId u = participant_findUnique s campaignId u"

text \<open>
  \<open>joinCampaign\<close>: \<open>answers\<close> is the optional map of answers; the result is the pair
  of the role given and the campaign's type.
\<close>

definition joinCampaign ::
  "(event \<Rightarrow> bool) \<Rightarrow> cid \<Rightarrow> authUser \<Rightarrow> (string \<times> string) list option \<Rightarrow> store \<Rightarrow>
   (role \<times> campaignType) result" where
  "joinCampaign pub campaignId user answersOpt s =
     (case campaign_findUnique s campaignId of
        None \<Rightarrow> (Inl (NotFound (''Campaign '' @ campaignId @ '' not found'')), s)
      | Some c \<Rightarrow>
          if status c \<noteq> ACTIVE then (Inl (BadRequest ''Campaign is not active''), s)
          else if participant_findUnique s campaignId (userId user) \<noteq> None
          then (Inl (Conflict ''Already a participant in this campaign''), s)
          else if ban_findUnique s campaignId (userId user) \<noteq> None
          then (Inl (Forbidden ''You are banned from this campaign''), s)
          else
            (let isAutoJoin = (campaignType c = AUTO_JOIN);
                 r = (if isAutoJoin then MEMBER else PENDING)
             in
             if isAutoJoin \<and> participant_count s campaignId \<ge> editorSlots c
             then (Inl (Forbidden ''Campaign is full''), s)
             else
               andThen (participant_create campaignId (userId user) r)
               (\<lambda>_. andThen
                  (case answersOpt of
                     None \<Rightarrow> return ()
                   | Some a \<Rightarrow>
                       if \<not> isAutoJoin
                       then response_create campaignId (userId user)
                              \<lparr>answers = a, responseStatus = ST_PENDING, reviewedBy = None,
                               reviewedAt = None, reviewNote = None\<rparr>
                       else return ())
               (\<lambda>_. andThen
                  (publish pub
                     (EvParticipantJoined campaignId (userId user) r
                        (if isAutoJoin then DIRECT else VIA_WAITLIST)))
               (\<lambda>_. return (r, campaignType c)))) s))"

definition approveParticipant ::
  "(event \<Rightarrow> bool) \<Rightarrow> int \<Rightarrow> cid \<Rightarrow> uid \<Rightarrow> authUser \<Rightarrow> store \<Rightarrow> role result" where
  "approveParticipant pub now campaignId targetUserId user s =
     (case campaign_findUnique s campaignId of
        None \<Rightarrow> (Inl (NotFound (''Campaign '' @ campaignId @ '' not found'')), s)
      | Some c \<Rightarrow>
          (let requesterRole = getParticipantRole s campaignId (userId user) in
           if requesterRole \<noteq> Some CREATOR \<and> requesterRole \<noteq> Some ADMIN \<and> \<not> isStaff user
           then (Inl (Forbidden ''You do not have permission to approve participants''), s)
           else if participant_count s campaignId \<ge> editorSlots c
           then (Inl (Forbidden ''Campaign is full''), s)
           else
             andThen (participant_update campaignId targetUserId MEMBER)
             (\<lambda>updated. andThen
                (response_updateMany campaignId targetUserId
                   (\<lambda>r. r\<lparr>responseStatus := ST_APPROVED, reviewedBy := Some (userId user),
                           reviewedAt := Some now\<rparr>))
             (\<lambda>_. andThen
                (publish pub (EvParticipantJoined campaignId targetUserId MEMBER VIA_WAITLIST))
             (\<lambda>_. return updated))) s))"

definition removeParticipant ::
  "(event \<Rightarrow> bool) \<Rightarrow> cid \<Rightarrow> uid \<Rightarrow> authUser \<Rightarrow> string option \<Rightarrow> store \<Rightarrow> unit result" where
  "removeParticipant pub campaignId targetUserId user reason s =
     (let requesterRole = getParticipantRole s campaignId (userId user) in
      if requesterRole \<noteq> Some CREATOR \<and> \<not> isStaff user
      then (Inl (Forbidden ''Only the campaign creator can remove participants''), s)
      else if targetUserId = userId user then (Inl (BadRequest ''Cannot remove yourself''), s)
      else
        andThen (participant_delete campaignId targetUserId)
        (\<lambda>_. publish pub
                (EvParticipantLeft campaignId targetUserId
                   (if reason = Some ''ban'' then BANNED else KICKED))) s)"

definition banParticipant ::
  "(event \<Rightarrow> bool) \<Rightarrow> int \<Rightarrow> cid \<Rightarrow> uid \<Rightarrow> authUser \<Rightarrow> string option \<Rightarrow> store \<Rightarrow> unit result" where
  "banParticipant pub now campaignId targetUserId user reason s =
     (let requesterRole = getParticipantRole s campaignId (userId user) in
      if requesterRole \<noteq> Some CREATOR \<and> requesterRole \<noteq> Some ADMIN \<and> \<not> isStaff user
      then (Inl (Forbidden ''You do not have permission to ban participants''), s)
      else
        andThen (ban_create campaignId targetUserId reason)
        (\<lambda>_. andThen (participant_deleteMany campaignId targetUserId)
        (\<lambda>_. andThen
           (application_updateMany
              (\<lambda>a. applicationCampaign a = campaignId \<and> applicationUser a = targetUserId
                    \<and> applicationStatus a = ST_PENDING)
              (\<lambda>a. a\<lparr>applicationStatus := ST_REJECTED, decidedAt := Some now\<rparr>))
        (\<lambda>_. publish pub (EvParticipantLeft campaignId targetUserId BANNED)))) s)"

section \<open>The waitlist service\<close>

text \<open>
  \<open>findMany\<close> with \<open>orderBy: { order: 'asc' }\<close>: the campaign's rows sorted by their
  order; rows of equal order are returned in insertion order.
\<close>

definition getWaitlistQuestions :: "store \<Rightarrow> cid \<Rightarrow> (cid \<times> string \<times> int) list" where
  "getWaitlistQuestions s campaignId =
     sort_key (\<lambda>row. snd (snd row)) (filter (\<lambda>row. fst row = campaignId) (questions s))"

text \<open>
  The loop of \<open>setWaitlistQuestions\<close>: a question is the pair of its text and its
  optional order; \<open>i\<close> is the index in the input and \<open>created\<close> the rows made so far.
\<close>

fun createQuestions ::
  "cid \<Rightarrow> (string \<times> int option) list \<Rightarrow> nat \<Rightarrow> (cid \<times> string \<times> int) list \<Rightarrow> store \<Rightarrow>
   (cid \<times> string \<times> int) list result" where
  "createQuestions campaignId [] i created s = (Inr created, s)"
| "createQuestions campaignId (q # rest) i created s =
     (let row = (campaignId, fst q, nullish (snd q) (int i + 1)) in
      createQuestions campaignId rest (i + 1) (created @ [row])
        (s\<lparr>questions := questions s @ [row]\<rparr>))"

definition setWaitlistQuestions ::
  "cid \<Rightarrow> (string \<times> int option) list \<Rightarrow> authUser \<Rightarrow> store \<Rightarrow> (cid \<times> string \<times> int) list result" where
  "setWaitlistQuestions campaignId qs user s =
     (let r = getParticipantRole s campaignId (userId user) in
      if r \<noteq> Some CREATOR \<and> \<not> isStaff user
      then (Inl (Forbidden ''Only the creator can manage waitlist questions''), s)
      else
        createQuestions campaignId qs 0 []
          (s\<lparr>questions := deleteWhere (\<lambda>k. k = campaignId) (questions s)\<rparr>))"

section \<open>The handlers of consumed events\<close>

datatype inbound =
    ClipSubmitted cid
  | ClipApproved cid
  | ClipRejected cid
  | StatsUpdated string

text \<open>
  One delivery of an event to its handler: \<open>Inr ()\<close> is the acknowledgement, \<open>Inl\<close>
  the exception that reaches the retry wrapper of the events library.
\<close>

fun handleEvent :: "inbound \<Rightarrow> store \<Rightarrow> unit result" where
  "handleEvent (StatsUpdated clipId) s = (Inr (), s)"
| "handleEvent (ClipApproved campaignId) s =
     andThen (campaign_update campaignId (\<lambda>c. c\<lparr>approvedClips := approvedClips c + 1\<rparr>))
       (\<lambda>_. return ()) s"
| "handleEvent (ClipRejected campaignId) s =
     andThen (campaign_update campaignId (\<lambda>c. c\<lparr>rejectedClips := rejectedClips c + 1\<rparr>))
       (\<lambda>_. return ()) s"
| "handleEvent (ClipSubmitted campaignId) s =
     andThen (campaign_update campaignId (\<lambda>c. c\<lparr>pendingClips := pendingClips c + 1\<rparr>))
       (\<lambda>_. return ()) s"

section \<open>Vocabulary of the properties and example stores\<close>

text \<open>
  A store with one active campaign \<open>c1\<close> created by \<open>alice\<close>, with \<open>bob\<close> as an
  admin, and two publishers: one that accepts every event and one that refuses all.
\<close>

definition campaign0 :: campaign where
  "campaign0 = \<lparr>title = ''Launch'', platforms = [TIKTOK], startDate = 0, endDate = 50,
     status = ACTIVE, campaignType = AUTO_JOIN, editorSlots = 5, totalBudget = 1005,
     platformFee = 0, remainingBudget = 0, spentBudget = 0, isFunded = False,
     approvedClips = 0, pendingClips = 0, rejectedClips = 0, totalViews = 0,
     enableLeaderboard = False, isPrivate = False, archivedAt = None,
     createdBy = ''alice'', studioId = None, published = False\<rparr>"

definition store0 :: store where
  "store0 = \<lparr>campaigns = [(''c1'', campaign0)], permissionsTable = [],
     participants = [((''c1'', ''alice''), CREATOR), ((''c1'', ''bob''), ADMIN)], bans = [], responses = [],
     applications = [], questions = [], prizeDistributions = [], invites = [], outbox = []\<rparr>"

definition alice :: authUser where
  "alice = \<lparr>userId = ''alice'', isStaff = False\<rparr>"

definition pubAll :: "event \<Rightarrow> bool" where
  "pubAll e = True"

definition pubNone :: "event \<Rightarrow> bool" where
  "pubNone e = False"

text \<open>A campaign with a very large budget, and \<open>store0\<close> with it in place of \<open>c1\<close>.\<close>

definition bigCampaign :: campaign where
  "bigCampaign = campaign0\<lparr>totalBudget := 7000000000000004\<rparr>"

definition storeBig :: store where
  "storeBig = store0\<lparr>campaigns := [(''c1'', bigCampaign)]\<rparr>"

text \<open>
  Two users without a role in \<open>c1\<close>, and the store in which the permissions of
  \<open>c1\<close> let admins delete the campaign.
\<close>

definition bob :: authUser where
  "bob = \<lparr>userId = ''bob'', isStaff = False\<rparr>"

definition mallory :: authUser where
  "mallory = \<lparr>userId = ''mallory'', isStaff = False\<rparr>"

definition permissive :: campaignPermissions where
  "permissive = \<lparr>adminsCanReviewClips = True, adminsCanManageTeam = True,
     adminsCanEditCampaign = False, adminsCanAddBudget = False,
     adminsCanDeleteCampaign = True\<rparr>"

definition storeDel :: store where
  "storeDel = store0\<lparr>permissionsTable := [(''c1'', permissive)]\<rparr>"

text \<open>
  A store with the waitlist campaign \<open>w1\<close> of \<open>alice\<close> and a pending campaign
  application of \<open>bob\<close>, and the store after \<open>bob\<close> has joined \<open>w1\<close> with answers.
\<close>

definition storeW :: store where
  "storeW = \<lparr>campaigns = [(''w1'', campaign0\<lparr>campaignType := WAITLIST\<rparr>)],
     permissionsTable = [],
     participants = [((''w1'', ''alice''), CREATOR)], bans = [], responses = [],
     applications = [\<lparr>applicationCampaign = ''w1'', applicationUser = ''bob'',
                       applicationStatus = ST_PENDING, decidedAt = None\<rparr>],
     questions = [], prizeDistributions = [], invites = [], outbox = []\<rparr>"

definition storeJoined :: store where
  "storeJoined = snd (joinCampaign pubAll ''w1'' bob (Some [(''why'', ''clips'')]) storeW)"

text \<open>
  The write of a closing sweep on one row, and the \<open>ended\<close> event that the sweep
  publishes for a selected row.
\<close>

definition endedBy :: "int \<Rightarrow> campaign \<Rightarrow> campaign" where
  "endedBy now x = x\<lparr>status := ENDED, archivedAt := Some now\<rparr>"

definition dateReachedEvent :: "cid \<times> campaign \<Rightarrow> event" where
  "dateReachedEvent row =
     EvEnded (fst row) DATE_REACHED (enableLeaderboard (snd row)) (approvedClips (snd row))
       (totalViews (snd row)) (spentBudget (snd row))"

text \<open>
  The operations that write the store of an existing campaign, one constructor per
  service call with its arguments (and the time it reads), and a sequence of calls: each
  call runs on the store the previous one left, whether it returned or threw.
\<close>

datatype operation =
    OpUpdate cid patch authUser
  | OpClose int cid authUser
  | OpAutoClose int
  | OpFund cid authUser
  | OpJoin cid authUser "(string \<times> string) list option"
  | OpApprove int cid uid authUser
  | OpRemove cid uid authUser "string option"
  | OpBan int cid uid authUser "string option"
  | OpSetQuestions cid "(string \<times> int option) list" authUser
  | OpDeliver inbound

fun perform :: "(event \<Rightarrow> bool) \<Rightarrow> operation \<Rightarrow> store \<Rightarrow> store" where
  "perform pub (OpUpdate k data user) s = snd (updateCampaign pub k data user s)"
| "perform pub (OpClose now k user) s = snd (closeCampaign pub now k user s)"
| "perform pub (OpAutoClose now) s = snd (autoCloseCampaigns pub now s)"
| "perform pub (OpFund k user) s = snd (fundCampaign pub k user s)"
| "perform pub (OpJoin k user a) s = snd (joinCampaign pub k user a s)"
| "perform pub (OpApprove now k target user) s = snd (approveParticipant pub now k target user s)"
| "perform pub (OpRemove k target user reason) s = snd (removeParticipant pub k target user reason s)"
| "perform pub (OpBan now k target user reason) s = snd (banParticipant pub now k target user reason s)"
| "perform pub (OpSetQuestions k qs user) s = snd (setWaitlistQuestions k qs user s)"
| "perform pub (OpDeliver ev) s = snd (handleEvent ev s)"

fun performAll :: "(event \<Rightarrow> bool) \<Rightarrow> operation list \<Rightarrow> store \<Rightarrow> store" where
  "performAll pub [] s = s"
| "performAll pub (op # ops) s = performAll pub ops (perform pub op s)"

text \<open>An update whose patch carries a status.\<close>

fun writesStatus :: "operation \<Rightarrow> bool" where
  "writesStatus (OpUpdate k data user) = (patchStatus data \<noteq> None)"
| "writesStatus other = False"

text \<open>
  Patches: the empty one, one that sets the status to ACTIVE and one that changes the
  title; a sequence of calls on \<open>c1\<close>; and \<open>store0\<close> after \<open>alice\<close> has closed
  \<open>c1\<close>.
\<close>

definition emptyPatch :: patch where
  "emptyPatch = \<lparr>patchTitle = None, patchPlatforms = None, patchStartDate = None,
     patchEndDate = None, patchStatus = None, patchCampaignType = None,
     patchEditorSlots = None, patchTotalBudget = None, patchPlatformFee = None,
     patchRemainingBudget = None, patchSpentBudget = None, patchIsFunded = None,
     patchApprovedClips = None, patchPendingClips = None, patchRejectedClips = None,
     patchTotalViews = None, patchEnableLeaderboard = None, patchIsPrivate = None,
     patchArchivedAt = None, patchCreatedBy = None, patchStudioId = None,
     patchPublished = None, patchPrizeDistributions = None\<rparr>"

definition activatePatch :: patch where
  "activatePatch = emptyPatch\<lparr>patchStatus := Some ACTIVE\<rparr>"

definition retitlePatch :: patch where
  "retitlePatch = emptyPatch\<lparr>patchTitle := Some ''Relaunch''\<rparr>"

definition sweepOps :: "operation list" where
  "sweepOps = [OpFund ''c1'' alice, OpUpdate ''c1'' retitlePatch alice,
     OpDeliver (ClipApproved ''c1''), OpAutoClose 100, OpClose 120 ''c1'' alice]"

definition storeClosed :: store where
  "storeClosed = snd (closeCampaign pubAll 60 ''c1'' alice store0)"

text \<open>
  A store reached from another by writes to the campaigns that keep each campaign's
  status or set it to ENDED.
\<close>

definition forward :: "store \<Rightarrow> store \<Rightarrow> bool" where
  "forward s s' =
     (\<exists>P f. campaigns s' = updateWhere P f (campaigns s)
            \<and> (\<forall>x. status (f x) = status x \<or> status (f x) = ENDED))"

text \<open>
  The validation of platform strings in the words of the specification: each platform of
  the enumeration has a name and an alias; a string is recognized as a platform when,
  lower-cased by the runtime, it contains the platform's name or is its alias, and it is
  recognized when it is recognized as one of the four platforms.
\<close>

fun platformName :: "platform \<Rightarrow> string" where
  "platformName TIKTOK = ''tiktok''"
| "platformName INSTAGRAM = ''instagram''"
| "platformName YOUTUBE = ''youtube''"
| "platformName TWITTER = ''twitter''"

fun platformAlias :: "platform \<Rightarrow> string" where
  "platformAlias TIKTOK = ''tik tok''"
| "platformAlias INSTAGRAM = ''insta''"
| "platformAlias YOUTUBE = ''yt''"
| "platformAlias TWITTER = ''x''"

definition recognizedAs :: "(string \<Rightarrow> string) \<Rightarrow> string \<Rightarrow> platform \<Rightarrow> bool" where
  "recognizedAs toLowerCase p pl =
     (sublist (platformName pl) (toLowerCase p) \<or> toLowerCase p = platformAlias pl)"

definition recognized :: "(string \<Rightarrow> string) \<Rightarrow> string \<Rightarrow> bool" where
  "recognized toLowerCase p =
     list_ex (recognizedAs toLowerCase p) [TIKTOK, INSTAGRAM, YOUTUBE, TWITTER]"

text \<open>
  Two characters that are the same up to the case of an ASCII letter, stated without the
  lower-casing function: they are equal, or one is a capital letter and the other the
  small letter at the same place of the alphabet.
\<close>

definition sameLetter :: "char \<Rightarrow> char \<Rightarrow> bool" where
  "sameLetter a b =
     (a = b
      \<or> (a, b) \<in> set (zip ''ABCDEFGHIJKLMNOPQRSTUVWXYZ'' ''abcdefghijklmnopqrstuvwxyz'')
      \<or> (b, a) \<in> set (zip ''ABCDEFGHIJKLMNOPQRSTUVWXYZ'' ''abcdefghijklmnopqrstuvwxyz''))"

text \<open>
  A lower-casing that knows one character beyond ASCII: the Kelvin sign U+212A, whose
  UTF-8 encoding is the three bytes E2 84 AA and whose lower case is the letter \<open>k\<close>;
  and the string \<open>TI\<close>, Kelvin sign, \<open>TOK\<close>.
\<close>

fun kelvinLowerCase :: "string \<Rightarrow> string" where
  "kelvinLowerCase (a # b # c # cs) =
     (if a = CHR 0xE2 \<and> b = CHR 0x84 \<and> c = CHR 0xAA then CHR ''k'' # kelvinLowerCase cs
      else lowerChar a # kelvinLowerCase (b # c # cs))"
| "kelvinLowerCase cs = map lowerChar cs"

definition kelvinTiktok :: string where
  "kelvinTiktok = ''TI'' @ [CHR 0xE2, CHR 0x84, CHR 0xAA] @ ''TOK''"

text \<open>An input of \<open>createCampaign\<close> with an unknown platform and one slot.\<close>

definition dataBad :: createData where
  "dataBad = \<lparr>dataTitle = ''Spring'', dataPlatforms = [''YT'', ''facebook''], dataStartDate = 0,
     dataEndDate = 90, dataTotalBudget = None, dataCampaignType = None,
     dataEditorSlots = Some 1, dataEnableLeaderboard = None, dataLeaderboardRanks = None,
     dataIsPrivate = None, dataInvitedUsers = None, dataStudioId = None\<rparr>"

text \<open>
  The rows that the specification asks of \<open>setQuestions\<close>: each question with its
  explicit order if it has one, else with its 1-based position in the input.
\<close>

definition assignOrders :: "cid \<Rightarrow> (string \<times> int option) list \<Rightarrow> (cid \<times> string \<times> int) list" where
  "assignOrders k qs =
     map (\<lambda>(i, q). (k, fst q, (case snd q of Some ord \<Rightarrow> ord | None \<Rightarrow> int i + 1)))
       (enumerate 0 qs)"

text \<open>\<open>store0\<close> with an earlier question of \<open>c1\<close> and one of another campaign.\<close>

definition storeQ :: store where
  "storeQ = store0\<lparr>questions := [(''c1'', ''Old question'', 1), (''w1'', ''Other campaign'', 1)]\<rparr>"

text \<open>The same rows for a part of the input that starts at index \<open>i\<close>.\<close>

definition rowsFrom :: "cid \<Rightarrow> nat \<Rightarrow> (string \<times> int option) list \<Rightarrow> (cid \<times> string \<times> int) list" where
  "rowsFrom k i qs =
     map (\<lambda>(i, q). (k, fst q, (case snd q of Some ord \<Rightarrow> ord | None \<Rightarrow> int i + 1)))
       (enumerate i qs)"

text \<open>
  Successive \<open>joinCampaign\<close> calls on one campaign, one per user of the list (with
  the answers the user sends), each on the store the previous call left; the results are
  collected in order.
\<close>

fun joinAll ::
  "(event \<Rightarrow> bool) \<Rightarrow> cid \<Rightarrow> (authUser \<times> (string \<times> string) list option) list \<Rightarrow> store \<Rightarrow>
   (error + role \<times> campaignType) list \<times> store" where
  "joinAll pub k [] s = ([], s)"
| "joinAll pub k (j # js) s =
     (case joinCampaign pub k (fst j) (snd j) s of
        (r, s1) \<Rightarrow> (case joinAll pub k js s1 of (rs, s2) \<Rightarrow> (r # rs, s2)))"

text \<open>
  The empty store, schema defaults with the status DRAFT, inputs of \<open>createCampaign\<close>
  with one and with three slots, a third user, and the store after \<open>alice\<close> has created
  the one-slot campaign \<open>c2\<close> and set it to ACTIVE. The platform strings of these
  inputs are ASCII, on which the runtime's lower-casing is \<open>asciiLowerCase\<close>.
\<close>

definition emptyStore :: store where
  "emptyStore = \<lparr>campaigns = [], permissionsTable = [], participants = [], bans = [],
     responses = [], applications = [], questions = [], prizeDistributions = [], invites = [],
     outbox = []\<rparr>"

definition draftDefaults :: campaign where
  "draftDefaults = campaign0\<lparr>status := DRAFT\<rparr>"

definition dataOne :: createData where
  "dataOne = dataBad\<lparr>dataPlatforms := [''tiktok'']\<rparr>"

definition dataThree :: createData where
  "dataThree = dataOne\<lparr>dataEditorSlots := Some 3\<rparr>"

definition carol :: authUser where
  "carol = \<lparr>userId = ''carol'', isStaff = False\<rparr>"

definition storeActive :: store where
  "storeActive =
     snd (updateCampaign pubAll ''c2'' activatePatch alice
            (snd (createCampaign asciiLowerCase pubAll ''c2'' draftDefaults dataOne alice
                    emptyStore)))"

section \<open>Properties\<close>

subsection \<open>Lookups in updated tables\<close>

lemma map_of_updateWhere:
  "map_of (updateWhere P f xs) k = (if P k then map_option f (map_of xs k) else map_of xs k)"
  by (induction xs) (auto simp: updateWhere_def)

lemma map_of_deleteWhere:
  "map_of (deleteWhere P xs) k = (if P k then None else map_of xs k)"
  by (induction xs) (auto simp: deleteWhere_def)

lemma updateWhere_absent:
  "map_of xs a = None \<Longrightarrow> updateWhere (\<lambda>k. k = a) f xs = xs"
  by (induction xs) (auto simp: updateWhere_def split: if_splits)

lemma campaign_update_Some:
  "campaign_findUnique s k = Some c \<Longrightarrow>
   campaign_update k f s = (Inr (f c), s\<lparr>campaigns := updateWhere (\<lambda>j. j = k) f (campaigns s)\<rparr>)"
  by (simp add: campaign_update_def campaign_findUnique_def)

lemma campaign_findUnique_campaigns:
  "campaign_findUnique (s\<lparr>campaigns := xs\<rparr>) k = map_of xs k"
  by (simp add: campaign_findUnique_def)

lemma campaign_findUnique_outbox:
  "campaign_findUnique (s\<lparr>outbox := xs\<rparr>) k = campaign_findUnique s k"
  by (simp add: campaign_findUnique_def)

subsection \<open>Consumed clip events\<close>

lemma handle_submitted:
  assumes "campaign_findUnique s k = Some c"
  shows "handleEvent (ClipSubmitted k) s =
     (Inr (), s\<lparr>campaigns := updateWhere (\<lambda>j. j = k) (\<lambda>x. x\<lparr>pendingClips := pendingClips x + 1\<rparr>) (campaigns s)\<rparr>)"
  using assms by (simp add: andThen_def return_def campaign_update_Some)

lemma handle_approved:
  assumes "campaign_findUnique s k = Some c"
  shows "handleEvent (ClipApproved k) s =
     (Inr (), s\<lparr>campaigns := updateWhere (\<lambda>j. j = k) (\<lambda>x. x\<lparr>approvedClips := approvedClips x + 1\<rparr>) (campaigns s)\<rparr>)"
  using assms by (simp add: andThen_def return_def campaign_update_Some)

lemma handle_rejected:
  assumes "campaign_findUnique s k = Some c"
  shows "handleEvent (ClipRejected k) s =
     (Inr (), s\<lparr>campaigns := updateWhere (\<lambda>j. j = k) (\<lambda>x. x\<lparr>rejectedClips := rejectedClips x + 1\<rparr>) (campaigns s)\<rparr>)"
  using assms by (simp add: andThen_def return_def campaign_update_Some)

text \<open>
  C9. When the named campaign exists, one delivery of \<open>clip.submitted\<close>,
  \<open>clip.approved\<close> or \<open>clip.rejected\<close> is acknowledged and adds exactly 1 to
  \<open>pendingClips\<close>, \<open>approvedClips\<close> or \<open>rejectedClips\<close> of that campaign and
  changes no other column of it; the handlers are not idempotent: two deliveries of the
  same \<open>clip.approved\<close> event add 2 to \<open>approvedClips\<close>.
\<close>

theorem clip_events_increment:
  assumes "campaign_findUnique s k = Some c"
  shows "(fst (handleEvent (ClipSubmitted k) s) = Inr ()
          \<and> campaign_findUnique (snd (handleEvent (ClipSubmitted k) s)) k
              = Some (c\<lparr>pendingClips := pendingClips c + 1\<rparr>))
       \<and> (fst (handleEvent (ClipApproved k) s) = Inr ()
          \<and> campaign_findUnique (snd (handleEvent (ClipApproved k) s)) k
              = Some (c\<lparr>approvedClips := approvedClips c + 1\<rparr>))
       \<and> (fst (handleEvent (ClipRejected k) s) = Inr ()
          \<and> campaign_findUnique (snd (handleEvent (ClipRejected k) s)) k
              = Some (c\<lparr>rejectedClips := rejectedClips c + 1\<rparr>))
       \<and> campaign_findUnique
            (snd (handleEvent (ClipApproved k) (snd (handleEvent (ClipApproved k) s)))) k
              = Some (c\<lparr>approvedClips := approvedClips c + 2\<rparr>)"
proof -
  let ?s1 = "snd (handleEvent (ClipApproved k) s)"
  have m: "map_of (campaigns s) k = Some c"
    using assms by (simp add: campaign_findUnique_def)
  have a1: "campaign_findUnique ?s1 k = Some (c\<lparr>approvedClips := approvedClips c + 1\<rparr>)"
    unfolding handle_approved[OF assms]
    by (simp add: campaign_findUnique_campaigns map_of_updateWhere m)
  have a1': "\<And>s' c'. campaign_findUnique s' k = Some c' \<Longrightarrow>
      campaign_findUnique (snd (handleEvent (ClipApproved k) s')) k
        = Some (c'\<lparr>approvedClips := approvedClips c' + 1\<rparr>)"
  proof -
    fix s' c' assume h: "campaign_findUnique s' k = Some c'"
    then have "map_of (campaigns s') k = Some c'" by (simp add: campaign_findUnique_def)
    then show "campaign_findUnique (snd (handleEvent (ClipApproved k) s')) k
        = Some (c'\<lparr>approvedClips := approvedClips c' + 1\<rparr>)"
      unfolding handle_approved[OF h]
      by (simp add: campaign_findUnique_campaigns map_of_updateWhere)
  qed
  have a2: "campaign_findUnique (snd (handleEvent (ClipApproved k) ?s1)) k
              = Some (c\<lparr>approvedClips := approvedClips c + 2\<rparr>)"
    using a1'[OF a1] by simp
  have s: "campaign_findUnique (snd (handleEvent (ClipSubmitted k) s)) k
              = Some (c\<lparr>pendingClips := pendingClips c + 1\<rparr>)"
    unfolding handle_submitted[OF assms]
    by (simp add: campaign_findUnique_campaigns map_of_updateWhere m)
  have r: "campaign_findUnique (snd (handleEvent (ClipRejected k) s)) k
              = Some (c\<lparr>rejectedClips := rejectedClips c + 1\<rparr>)"
    unfolding handle_rejected[OF assms]
    by (simp add: campaign_findUnique_campaigns map_of_updateWhere m)
  have f: "fst (handleEvent (ClipSubmitted k) s) = Inr ()"
    "fst (handleEvent (ClipApproved k) s) = Inr ()"
    "fst (handleEvent (ClipRejected k) s) = Inr ()"
    unfolding handle_submitted[OF assms] handle_approved[OF assms] handle_rejected[OF assms]
    by simp_all
  show ?thesis
    using a1 a2 s r f by blast
qed

theorem clip_events_increment_witness:
  "campaign_findUnique store0 ''c1'' = Some campaign0
   \<and> campaign_findUnique
        (snd (handleEvent (ClipApproved ''c1'') (snd (handleEvent (ClipApproved ''c1'') store0))))
        ''c1'' = Some (campaign0\<lparr>approvedClips := 2\<rparr>)"
proof -
  have h: "campaign_findUnique store0 ''c1'' = Some campaign0"
    by (simp add: campaign_findUnique_def store0_def)
  have "approvedClips campaign0 = 0" by (simp add: campaign0_def)
  with clip_events_increment [OF h] h show ?thesis by simp
qed

subsection \<open>Evaluation of the examples\<close>

lemmas store_ops =
  campaign_findUnique_def campaign_create_def campaign_update_def campaign_delete_def
  participant_findUnique_def participant_count_def participant_create_def
  participant_update_def participant_delete_def participant_deleteMany_def
  ban_findUnique_def ban_create_def response_findUnique_def response_create_def
  response_updateMany_def application_updateMany_def publish_def
  andThen_def return_def updateWhere_def deleteWhere_def getCampaign_def
  getParticipantRole_def nullish_def

lemmas examples = campaign0_def store0_def alice_def pubAll_def pubNone_def

subsection \<open>Deleting a campaign\<close>

text \<open>
  C3. The claim asks that an actor who is neither the creator, nor staff, nor an admin of
  the campaign is refused by \<open>deleteCampaign\<close> whatever the permission flags are. The
  code consults \<open>adminsCanDeleteCampaign\<close> without testing the actor's role: with the
  flag set, \<open>mallory\<close>, who has no participant row and is not staff, deletes \<open>c1\<close>.
\<close>

theorem deleteCampaign_outsider_with_override:
  "participant_findUnique storeDel ''c1'' (userId mallory) = None
   \<and> isStaff mallory = False
   \<and> fst (deleteCampaign ''c1'' mallory storeDel) = Inr ()
   \<and> campaign_findUnique (snd (deleteCampaign ''c1'' mallory storeDel)) ''c1'' = None"
  by (simp add: deleteCampaign_def storeDel_def mallory_def permissive_def store_ops examples)

subsection \<open>Double arithmetic\<close>

lemma ilog2_lower:
  assumes "x \<noteq> 0"
  shows "2 powi (ilog2 x) \<le> \<bar>x\<bar>"
proof -
  obtain p q where pq: "quotient_of \<bar>x\<bar> = (p, q)" by (cases "quotient_of \<bar>x\<bar>")
  have q: "0 < q" using quotient_of_denom_pos[OF pq] .
  have x: "\<bar>x\<bar> = of_int p / of_int q" using quotient_of_div[OF pq] .
  have "0 < \<bar>x\<bar>" using assms by simp
  then have p: "0 < p" using q x by (simp add: zero_less_divide_iff)
  let ?e0 = "bitlen p - bitlen q"
  show ?thesis
  proof (cases "2 powi ?e0 \<le> \<bar>x\<bar>")
    case True
    then show ?thesis by (simp add: ilog2_def pq)
  next
    case False
    have bp: "(2::int) ^ nat (bitlen p - 1) \<le> p" using bitlen_bounds[OF p] by simp
    have bq: "q < 2 ^ nat (bitlen q)" using bitlen_bounds[OF q] by simp
    have p1: "1 \<le> bitlen p" using p by (simp add: bitlen_alt_def)
    have q0: "0 \<le> bitlen q" by (rule bitlen_nonneg)
    have "?e0 - 1 = (bitlen p - 1) - bitlen q" by simp
    then have "(2::rat) powi (?e0 - 1) = 2 powi ((bitlen p - 1) - bitlen q)" by (rule arg_cong)
    also have "\<dots> = 2 powi (bitlen p - 1) / 2 powi (bitlen q)"
      by (rule power_int_diff) simp
    also have "\<dots> = 2 ^ nat (bitlen p - 1) / 2 ^ nat (bitlen q)"
      using p1 q0 by (simp add: power_int_def)
    also have "\<dots> \<le> of_int p / of_int q"
    proof -
      have a: "(2::rat) ^ nat (bitlen p - 1) \<le> of_int p"
        using bp by (metis of_int_le_iff of_int_numeral of_int_power)
      have b: "(of_int q :: rat) \<le> 2 ^ nat (bitlen q)"
        using bq by (metis less_imp_le of_int_le_iff of_int_numeral of_int_power)
      have c: "(0::rat) < of_int q" using q by simp
      have e: "(0::rat) \<le> of_int p" using p by simp
      show ?thesis using e a c b by (rule frac_le)
    qed
    finally have "(2::rat) powi (?e0 - 1) \<le> \<bar>x\<bar>" using x by simp
    then show ?thesis using False by (simp add: ilog2_def pq)
  qed
qed

lemma ilog2_upper:
  assumes "x \<noteq> 0"
  shows "\<bar>x\<bar> < 2 powi (ilog2 x + 1)"
proof -
  obtain p q where pq: "quotient_of \<bar>x\<bar> = (p, q)" by (cases "quotient_of \<bar>x\<bar>")
  have q: "0 < q" using quotient_of_denom_pos[OF pq] .
  have x: "\<bar>x\<bar> = of_int p / of_int q" using quotient_of_div[OF pq] .
  have "0 < \<bar>x\<bar>" using assms by simp
  then have p: "0 < p" using q x by (simp add: zero_less_divide_iff)
  let ?e0 = "bitlen p - bitlen q"
  show ?thesis
  proof (cases "2 powi ?e0 \<le> \<bar>x\<bar>")
    case False
    then show ?thesis by (simp add: ilog2_def pq)
  next
    case True
    have bp: "p < 2 ^ nat (bitlen p)" using bitlen_bounds[OF p] by simp
    have bq: "(2::int) ^ nat (bitlen q - 1) \<le> q" using bitlen_bounds[OF q] by simp
    have q1: "1 \<le> bitlen q" using q by (simp add: bitlen_alt_def)
    have p0: "0 \<le> bitlen p" by (rule bitlen_nonneg)
    have a: "(of_int p :: rat) < 2 ^ nat (bitlen p)"
      using bp by (metis of_int_less_iff of_int_numeral of_int_power)
    have b: "(2::rat) ^ nat (bitlen q - 1) \<le> of_int q"
      using bq by (metis of_int_le_iff of_int_numeral of_int_power)
    have c: "(0::rat) < 2 ^ nat (bitlen q - 1)" by simp
    have "of_int p / of_int q < (2::rat) ^ nat (bitlen p) / 2 ^ nat (bitlen q - 1)"
      using a b c by (intro frac_less) (use p in simp_all)
    also have "\<dots> = 2 powi (bitlen p) / 2 powi (bitlen q - 1)"
      using q1 p0 by (simp add: power_int_def)
    also have "\<dots> = 2 powi (bitlen p - (bitlen q - 1))"
      by (rule power_int_diff[symmetric]) simp
    also have "bitlen p - (bitlen q - 1) = ?e0 + 1" by simp
    finally have "\<bar>x\<bar> < 2 powi (?e0 + 1)" using x by simp
    then show ?thesis using True by (simp add: ilog2_def pq)
  qed
qed

lemma ilog2_le:
  assumes "x \<noteq> 0" and "\<bar>x\<bar> < 2 powi (n + 1)"
  shows "ilog2 x \<le> n"
proof (rule ccontr)
  assume "\<not> ilog2 x \<le> n"
  then have "n + 1 \<le> ilog2 x" by simp
  then have "(2::rat) powi (n + 1) \<le> 2 powi (ilog2 x)"
    by (intro power_int_increasing) simp_all
  with ilog2_lower[OF assms(1)] assms(2) show False by simp
qed

lemma roundHalfEven_bounds: "\<lfloor>y\<rfloor> \<le> roundHalfEven y \<and> roundHalfEven y \<le> \<lceil>y\<rceil>"
proof -
  have "of_int \<lfloor>y\<rfloor> \<noteq> y \<Longrightarrow> \<lfloor>y\<rfloor> + 1 \<le> \<lceil>y\<rceil>"
    by (metis ceiling_altdef order_refl)
  moreover have "1 / 2 \<le> y - of_int \<lfloor>y\<rfloor> \<Longrightarrow> of_int \<lfloor>y\<rfloor> \<noteq> y" by auto
  ultimately show ?thesis
    by (auto simp: roundHalfEven_def Let_def)
qed

lemma roundHalfEven_ge: "of_int i \<le> y \<Longrightarrow> i \<le> roundHalfEven y"
  using roundHalfEven_bounds[of y] by (meson le_floor_iff order_trans)

lemma roundHalfEven_le: "y \<le> of_int i \<Longrightarrow> roundHalfEven y \<le> i"
  using roundHalfEven_bounds[of y] by (meson ceiling_le_iff order_trans)

lemma roundToDouble_grid:
  assumes "x \<noteq> 0" and "\<bar>x\<bar> < 2 ^ h" and "g + h = 53"
  shows "\<exists>m. roundToDouble x = of_int (roundHalfEven (x * 2 ^ (g + m))) / 2 ^ (g + m)"
proof -
  let ?e = "max (ilog2 x) (- 1022)"
  have "(2::rat) ^ h = 2 powi (int h)" by simp
  also have "int h = (int h - 1) + 1" by simp
  finally have "\<bar>x\<bar> < 2 powi ((int h - 1) + 1)" using assms(2) by simp
  from ilog2_le[OF assms(1) this] have "ilog2 x \<le> int h - 1" .
  moreover have "int h = 53 - int g" using assms(3) by linarith
  ultimately have e: "?e \<le> 52 - int g" by simp
  define m where "m = nat (52 - ?e) - g"
  have "int g \<le> 52 - ?e" using e by linarith
  then have "g \<le> nat (52 - ?e)" by linarith
  then have n: "nat (52 - ?e) = g + m" by (simp add: m_def)
  have neg: "\<not> (0 \<le> ?e - 52) \<or> ?e - 52 = 0" using e by linarith
  have "(2::rat) powi (?e - 52) = inverse (2 ^ nat (52 - ?e))"
  proof (cases "?e - 52 = 0")
    case True
    then show ?thesis by simp
  next
    case False
    then have "\<not> 0 \<le> ?e - 52" using neg by blast
    then show ?thesis unfolding power_int_def
      by (simp add: power_one_over inverse_eq_divide)
  qed
  then have u: "(2::rat) powi (?e - 52) = 1 / 2 ^ (g + m)"
    unfolding n by (simp add: inverse_eq_divide)
  have "roundToDouble x = of_int (roundHalfEven (x * 2 ^ (g + m))) / 2 ^ (g + m)"
    using assms(1) unfolding roundToDouble_def Let_def u by simp
  then show ?thesis by (rule exI)
qed

lemma roundToDouble_ge:
  assumes "\<bar>x\<bar> < 2 ^ h" and "g + h = 53" and "of_int j / 2 ^ g \<le> x"
  shows "of_int j / 2 ^ g \<le> roundToDouble x"
proof (cases "x = 0")
  case True
  then show ?thesis using assms(3) by (simp add: roundToDouble_def)
next
  case False
  from roundToDouble_grid[OF False assms(1,2)] obtain m where
    r: "roundToDouble x = of_int (roundHalfEven (x * 2 ^ (g + m))) / 2 ^ (g + m)" by blast
  have "of_int j * 2 ^ m \<le> x * 2 ^ (g + m)"
    using assms(3) by (simp add: power_add field_simps)
  then have "(of_int (j * 2 ^ m) :: rat) \<le> x * 2 ^ (g + m)" by simp
  then have "j * 2 ^ m \<le> roundHalfEven (x * 2 ^ (g + m))" by (rule roundHalfEven_ge)
  then have "(of_int (j * 2 ^ m) :: rat) \<le> of_int (roundHalfEven (x * 2 ^ (g + m)))"
    by (simp only: of_int_le_iff)
  then have "(of_int j * 2 ^ m :: rat) / 2 ^ (g + m) \<le> roundToDouble x"
    unfolding r by (simp add: divide_right_mono)
  then show ?thesis by (simp add: power_add)
qed

lemma roundToDouble_le:
  assumes "\<bar>x\<bar> < 2 ^ h" and "g + h = 53" and "x \<le> of_int j / 2 ^ g"
  shows "roundToDouble x \<le> of_int j / 2 ^ g"
proof (cases "x = 0")
  case True
  then show ?thesis using assms(3) by (simp add: roundToDouble_def)
next
  case False
  from roundToDouble_grid[OF False assms(1,2)] obtain m where
    r: "roundToDouble x = of_int (roundHalfEven (x * 2 ^ (g + m))) / 2 ^ (g + m)" by blast
  have "x * 2 ^ (g + m) \<le> of_int j * 2 ^ m"
    using assms(3) by (simp add: power_add field_simps)
  then have "x * 2 ^ (g + m) \<le> (of_int (j * 2 ^ m) :: rat)" by simp
  then have "roundHalfEven (x * 2 ^ (g + m)) \<le> j * 2 ^ m" by (rule roundHalfEven_le)
  then have "(of_int (roundHalfEven (x * 2 ^ (g + m))) :: rat) \<le> of_int (j * 2 ^ m)"
    by (simp only: of_int_le_iff)
  then have "roundToDouble x \<le> (of_int j * 2 ^ m :: rat) / 2 ^ (g + m)"
    unfolding r by (simp add: divide_right_mono)
  then show ?thesis by (simp add: power_add)
qed

lemma roundToDouble_of_int:
  assumes "\<bar>j\<bar> < 2 ^ 53"
  shows "roundToDouble (of_int j) = of_int j"
proof -
  have a: "\<bar>of_int j :: rat\<bar> < 2 ^ 53"
    using assms by (metis of_int_abs of_int_less_iff of_int_numeral of_int_power)
  have g: "(0::nat) + 53 = 53" by simp
  have "of_int j / 2 ^ 0 \<le> roundToDouble (of_int j)"
    by (rule roundToDouble_ge[OF a g]) simp
  moreover have "roundToDouble (of_int j) \<le> of_int j / 2 ^ 0"
    by (rule roundToDouble_le[OF a g]) simp
  ultimately show ?thesis by simp
qed

lemma fee_nearest:
  assumes "0 \<le> n" and "n \<le> 4503599627370496"
  shows "Math_round (roundToDouble (of_int n * double_0_1)) = (n + 5) div 10"
proof -
  define k where "k = n div 10"
  define x :: rat where "x = of_int n * double_0_1"
  define N :: rat where "N = of_int n"
  have N0: "0 \<le> N" and N1: "N \<le> 4503599627370496"
    using assms by (simp_all add: N_def)
  have xl: "N / 10 \<le> x" and xu: "x \<le> N / 10 + 1 / 40"
    using N0 N1 unfolding x_def double_0_1_def N_def[symmetric] by simp_all
  have ax: "\<bar>x\<bar> < 2 ^ 49" using xl xu N0 N1 by simp
  have g: "(4::nat) + 49 = 53" by simp
  have k1: "10 * k \<le> n" and k2: "n < 10 * k + 10" by (simp_all add: k_def) 
  have K1: "10 * of_int k \<le> N" using k1 unfolding N_def
    by (metis of_int_le_iff of_int_mult of_int_numeral)
  show ?thesis
  proof (cases "n \<le> 10 * k + 4")
    case True
    then have "N \<le> of_int (10 * k + 4)" unfolding N_def by (simp only: of_int_le_iff)
    then have K2: "N \<le> 10 * of_int k + 4" by simp
    have "of_int (16 * k) / 2 ^ 4 \<le> x" using xl K1 by simp
    from roundToDouble_ge[OF ax g this] have lo: "of_int k \<le> roundToDouble x" by simp
    have "x \<le> of_int (16 * k + 7) / 2 ^ 4" using xu K2 by simp
    from roundToDouble_le[OF ax g this] have hi: "roundToDouble x \<le> of_int k + 7 / 16"
      by simp
    have "Math_round (roundToDouble x) = k"
      unfolding Math_round_def using lo hi by (simp add: floor_unique)
    moreover have "(n + 5) div 10 = k" using True k1 by (simp add: k_def) 
    ultimately show ?thesis by (simp add: x_def)
  next
    case False
    then have "10 * k + 5 \<le> n" by simp
    then have "of_int (10 * k + 5) \<le> N" unfolding N_def by (simp only: of_int_le_iff)
    then have K3: "10 * of_int k + 5 \<le> N" by simp
    have "n \<le> 10 * k + 9" using k2 by simp
    then have "N \<le> of_int (10 * k + 9)" unfolding N_def by (simp only: of_int_le_iff)
    then have K4: "N \<le> 10 * of_int k + 9" by simp
    have "of_int (16 * k + 8) / 2 ^ 4 \<le> x" using xl K3 by simp
    from roundToDouble_ge[OF ax g this] have lo: "of_int k + 1 / 2 \<le> roundToDouble x" by simp
    have "x \<le> of_int (16 * k + 16) / 2 ^ 4" using xu K4 by simp
    from roundToDouble_le[OF ax g this] have hi: "roundToDouble x \<le> of_int k + 1"
      by simp
    have "Math_round (roundToDouble x) = k + 1"
      unfolding Math_round_def using lo hi by (simp add: floor_unique)
    moreover have "(n + 5) div 10 = k + 1" using False k2 by (simp add: k_def) 
    ultimately show ?thesis by (simp add: x_def)
  qed
qed

subsection \<open>Funding\<close>

lemma fundCampaign_first:
  assumes c: "campaign_findUnique s k = Some c"
    and auth: "createdBy c = userId user \<or> isStaff user"
    and nf: "\<not> isFunded c"
    and p: "pub (EvFunded k (totalBudget c) (totalBudget c) (userId user))"
  shows "fundCampaign pub k user s =
     (Inr (c\<lparr>isFunded := True,
             platformFee := Math_round (roundToDouble (totalBudget c * double_0_1)),
             remainingBudget := roundToDouble (totalBudget c
                 - of_int (Math_round (roundToDouble (totalBudget c * double_0_1))))\<rparr>),
      s\<lparr>campaigns := updateWhere (\<lambda>j. j = k)
            (\<lambda>x. x\<lparr>isFunded := True,
                 platformFee := Math_round (roundToDouble (totalBudget c * double_0_1)),
                 remainingBudget := roundToDouble (totalBudget c
                     - of_int (Math_round (roundToDouble (totalBudget c * double_0_1))))\<rparr>)
            (campaigns s),
        outbox := outbox s @ [EvFunded k (totalBudget c) (totalBudget c) (userId user)]\<rparr>)"
  using assms
  by (auto simp: fundCampaign_def getCampaign_def campaign_update_Some
      andThen_def return_def publish_def Let_def)

lemma fundCampaign_funded:
  assumes c: "campaign_findUnique s k = Some c"
    and auth: "createdBy c = userId user \<or> isStaff user"
    and f: "isFunded c"
  shows "fundCampaign pub k user s = (Inl (Conflict ''Campaign is already funded''), s)"
  using assms by (auto simp: fundCampaign_def getCampaign_def)

lemma fee_large:
  "Math_round (roundToDouble (7000000000000004 * double_0_1)) = 700000000000001"
  by code_simp

text \<open>
  C5, as stated, fails: the fee is \<open>Math.round\<close> of the double product
  \<open>totalBudget * 0.1\<close>, not of the exact tenth. For the budget 7000000000000004 the
  exact tenth is 700000000000000.4, whose nearest integer is 700000000000000; the double
  product is 700000000000000.5 and the fee stored is 700000000000001.
\<close>

theorem fund_large_budget_fee_off_by_one:
  "totalBudget bigCampaign = 7000000000000004
   \<and> fst (fundCampaign pubAll ''c1'' alice storeBig)
       = Inr (bigCampaign\<lparr>isFunded := True, platformFee := 700000000000001,
                           remainingBudget := 6300000000000003\<rparr>)
   \<and> \<not> (10 * 700000000000001 - 5 \<le> (7000000000000004 :: int))"
proof -
  have h1: "campaign_findUnique storeBig ''c1'' = Some bigCampaign"
    by (simp add: campaign_findUnique_def storeBig_def store0_def)
  have h2: "createdBy bigCampaign = userId alice \<or> isStaff alice"
    by (simp add: bigCampaign_def campaign0_def alice_def)
  have h3: "\<not> isFunded bigCampaign" by (simp add: bigCampaign_def campaign0_def)
  have h4: "pubAll (EvFunded ''c1'' (totalBudget bigCampaign) (totalBudget bigCampaign)
                      (userId alice))"
    by (simp add: pubAll_def)
  have t: "totalBudget bigCampaign = 7000000000000004" by (simp add: bigCampaign_def)
  have r: "roundToDouble 6300000000000003 = 6300000000000003"
    by code_simp
  show ?thesis
    unfolding fundCampaign_first[where pub = pubAll, OF h1 h2 h3 h4]
    by (simp add: t fee_large r)
qed

text \<open>
  C5, amended. For a campaign that is not yet funded and whose \<open>totalBudget\<close> is an
  integer \<open>n\<close> from 0 to \<open>2 ^ 52\<close> (4503599627370496), \<open>fundCampaign\<close> by its
  creator or by staff, with a publisher that accepts the \<open>funded\<close> event, succeeds: it
  sets \<open>isFunded\<close>, sets \<open>platformFee\<close> to the integer nearest to a tenth of
  \<open>totalBudget\<close> (a tie is rounded up), and \<open>remainingBudget\<close> to
  \<open>totalBudget - platformFee\<close>. A second call then fails with Conflict and leaves the
  store as it is.
\<close>

theorem fund_twice:
  assumes c: "campaign_findUnique s k = Some c"
    and auth: "createdBy c = userId user \<or> isStaff user"
    and nf: "\<not> isFunded c"
    and p: "pub (EvFunded k (totalBudget c) (totalBudget c) (userId user))"
    and tb: "totalBudget c = of_int n"
    and n0: "0 \<le> n"
    and n1: "n \<le> 4503599627370496"
  shows "\<exists>fee c1 s1.
           fundCampaign pub k user s = (Inr c1, s1)
         \<and> campaign_findUnique s1 k = Some c1
         \<and> c1 = c\<lparr>isFunded := True, platformFee := fee,
                   remainingBudget := totalBudget c - of_int fee\<rparr>
         \<and> fee = Math_round (roundToDouble (totalBudget c * double_0_1))
         \<and> fee = (n + 5) div 10
         \<and> 10 * fee - 5 \<le> n \<and> n < 10 * fee + 5
         \<and> fundCampaign pub' k user s1 = (Inl (Conflict ''Campaign is already funded''), s1)"
proof -
  let ?fee = "(n + 5) div 10"
  let ?c1 = "c\<lparr>isFunded := True, platformFee := ?fee,
               remainingBudget := totalBudget c - of_int ?fee\<rparr>"
  let ?s1 = "snd (fundCampaign pub k user s)"
  have fee: "Math_round (roundToDouble (totalBudget c * double_0_1)) = ?fee"
    unfolding tb by (rule fee_nearest[OF n0 n1])
  have "\<bar>n - ?fee\<bar> < 2 ^ 53" using n0 n1 by simp
  then have "roundToDouble (of_int (n - ?fee)) = of_int (n - ?fee)"
    by (rule roundToDouble_of_int)
  then have rem: "roundToDouble (totalBudget c - of_int ?fee) = totalBudget c - of_int ?fee"
    unfolding tb by simp
  have m: "map_of (campaigns s) k = Some c" using c by (simp add: campaign_findUnique_def)
  have r: "fundCampaign pub k user s = (Inr ?c1, ?s1)"
    by (simp add: fundCampaign_first[where pub = pub, OF c auth nf p] fee rem)
  have l: "campaign_findUnique ?s1 k = Some ?c1"
    by (simp add: fundCampaign_first[where pub = pub, OF c auth nf p] campaign_findUnique_def
        map_of_updateWhere m fee rem)
  have a: "createdBy ?c1 = userId user \<or> isStaff user" using auth by simp
  have again: "fundCampaign pub' k user ?s1 = (Inl (Conflict ''Campaign is already funded''), ?s1)"
    by (rule fundCampaign_funded[OF l a]) simp
  have b: "10 * ?fee - 5 \<le> n \<and> n < 10 * ?fee + 5" by presburger
  show ?thesis
    using r l again b fee by metis
qed

theorem fund_twice_witness:
  "campaign_findUnique store0 ''c1'' = Some campaign0
   \<and> createdBy campaign0 = userId alice
   \<and> \<not> isFunded campaign0
   \<and> pubAll (EvFunded ''c1'' 1005 1005 ''alice'')
   \<and> totalBudget campaign0 = of_int 1005
   \<and> map_option platformFee (campaign_findUnique (snd (fundCampaign pubAll ''c1'' alice store0)) ''c1'') = Some 101
   \<and> map_option remainingBudget (campaign_findUnique (snd (fundCampaign pubAll ''c1'' alice store0)) ''c1'') = Some 904
   \<and> fst (fundCampaign pubAll ''c1'' alice (snd (fundCampaign pubAll ''c1'' alice store0)))
        = Inl (Conflict ''Campaign is already funded'')"
proof -
  have h1: "campaign_findUnique store0 ''c1'' = Some campaign0"
    by (simp add: campaign_findUnique_def store0_def)
  have h2: "createdBy campaign0 = userId alice \<or> isStaff alice"
    by (simp add: campaign0_def alice_def)
  have h3: "\<not> isFunded campaign0" by (simp add: campaign0_def)
  have h4: "pubAll (EvFunded ''c1'' (totalBudget campaign0) (totalBudget campaign0) (userId alice))"
    by (simp add: pubAll_def)
  have t: "totalBudget campaign0 = of_int 1005" by (simp add: campaign0_def)
  have n0: "(0::int) \<le> 1005" and n1: "(1005::int) \<le> 4503599627370496" by simp_all
  from fund_twice [where pub = pubAll and pub' = pubAll, OF h1 h2 h3 h4 t n0 n1]
  obtain fee c1 s1 where
    x: "fundCampaign pubAll ''c1'' alice store0 = (Inr c1, s1)"
      "campaign_findUnique s1 ''c1'' = Some c1"
      "c1 = campaign0\<lparr>isFunded := True, platformFee := fee,
                       remainingBudget := totalBudget campaign0 - of_int fee\<rparr>"
      "fee = (1005 + 5) div 10"
      "fundCampaign pubAll ''c1'' alice s1 = (Inl (Conflict ''Campaign is already funded''), s1)"
    by blast
  from x(4) have "fee = 101" by simp
  with x t h1 h3 show ?thesis
    by (simp add: campaign0_def alice_def pubAll_def)
qed

subsection \<open>Approving a participant\<close>

lemma participant_update_Some:
  "participant_findUnique s k u = Some r0 \<Longrightarrow>
   participant_update k u r s =
     (Inr r, s\<lparr>participants := updateWhere (\<lambda>j. j = (k, u)) (\<lambda>_. r) (participants s)\<rparr>)"
  by (simp add: participant_update_def participant_findUnique_def)

lemma approveParticipant_ok:
  assumes c: "campaign_findUnique s k = Some c"
    and auth: "getParticipantRole s k (userId user) = Some CREATOR
               \<or> getParticipantRole s k (userId user) = Some ADMIN \<or> isStaff user"
    and cap: "participant_count s k < editorSlots c"
    and t: "participant_findUnique s k target = Some r0"
    and p: "pub (EvParticipantJoined k target MEMBER VIA_WAITLIST)"
  shows "approveParticipant pub now k target user s =
     (Inr MEMBER,
      s\<lparr>participants := updateWhere (\<lambda>j. j = (k, target)) (\<lambda>_. MEMBER) (participants s),
        responses := updateWhere (\<lambda>j. j = (k, target))
           (\<lambda>r. r\<lparr>responseStatus := ST_APPROVED, reviewedBy := Some (userId user),
                   reviewedAt := Some now\<rparr>) (responses s),
        outbox := outbox s @ [EvParticipantJoined k target MEMBER VIA_WAITLIST]\<rparr>)"
  using assms
  by (auto simp: approveParticipant_def participant_update_Some andThen_def return_def
      response_updateMany_def publish_def Let_def)

text \<open>
  C10. \<open>approveParticipant\<close> never looks at the target's current role: for a target
  with a participant row of any role \<open>r0\<close>, a call by the creator, an admin or staff
  on a campaign with free capacity (and a publisher that accepts the event) succeeds and
  leaves the target with the role MEMBER; when the target has no waitlist response the
  update of the responses changes nothing and the call succeeds all the same.
\<close>

theorem approve_ignores_role:
  assumes c: "campaign_findUnique s k = Some c"
    and auth: "getParticipantRole s k (userId user) = Some CREATOR
               \<or> getParticipantRole s k (userId user) = Some ADMIN \<or> isStaff user"
    and cap: "participant_count s k < editorSlots c"
    and t: "participant_findUnique s k target = Some r0"
    and p: "pub (EvParticipantJoined k target MEMBER VIA_WAITLIST)"
  shows "fst (approveParticipant pub now k target user s) = Inr MEMBER
       \<and> participant_findUnique (snd (approveParticipant pub now k target user s)) k target
           = Some MEMBER
       \<and> (response_findUnique s k target = None \<longrightarrow>
            responses (snd (approveParticipant pub now k target user s)) = responses s)"
proof -
  have m: "map_of (participants s) (k, target) = Some r0"
    using t by (simp add: participant_findUnique_def)
  show ?thesis
    unfolding approveParticipant_ok[where pub = pub, OF c auth cap t p]
    by (simp add: participant_findUnique_def response_findUnique_def map_of_updateWhere m
        updateWhere_absent)
qed

theorem approve_ignores_role_witness:
  "campaign_findUnique store0 ''c1'' = Some campaign0
   \<and> getParticipantRole store0 ''c1'' (userId alice) = Some CREATOR
   \<and> participant_count store0 ''c1'' < editorSlots campaign0
   \<and> participant_findUnique store0 ''c1'' ''bob'' = Some ADMIN
   \<and> pubAll (EvParticipantJoined ''c1'' ''bob'' MEMBER VIA_WAITLIST)
   \<and> response_findUnique store0 ''c1'' ''bob'' = None
   \<and> fst (approveParticipant pubAll 7 ''c1'' ''bob'' alice store0) = Inr MEMBER
   \<and> participant_findUnique (snd (approveParticipant pubAll 7 ''c1'' ''bob'' alice store0))
        ''c1'' ''bob'' = Some MEMBER
   \<and> responses (snd (approveParticipant pubAll 7 ''c1'' ''bob'' alice store0)) = responses store0"
proof -
  have h1: "campaign_findUnique store0 ''c1'' = Some campaign0"
    by (simp add: campaign_findUnique_def store0_def)
  have h2: "getParticipantRole store0 ''c1'' (userId alice) = Some CREATOR"
    by (simp add: store_ops examples)
  have h3: "participant_count store0 ''c1'' < editorSlots campaign0"
    by (simp add: store_ops examples)
  have h4: "participant_findUnique store0 ''c1'' ''bob'' = Some ADMIN"
    by (simp add: store_ops examples)
  have h5: "pubAll (EvParticipantJoined ''c1'' ''bob'' MEMBER VIA_WAITLIST)"
    by (simp add: pubAll_def)
  have h6: "response_findUnique store0 ''c1'' ''bob'' = None"
    by (simp add: store_ops examples)
  from approve_ignores_role [where pub = pubAll and now = 7, OF h1 disjI1 [OF h2] h3 h4 h5]
    h1 h2 h3 h4 h5 h6
  show ?thesis by simp
qed

subsection \<open>Banning a participant\<close>

lemma storeJoined_eq:
  "storeJoined = storeW\<lparr>participants := [((''w1'', ''alice''), CREATOR), ((''w1'', ''bob''), PENDING)],
      responses := [((''w1'', ''bob''), \<lparr>answers = [(''why'', ''clips'')], responseStatus = ST_PENDING,
          reviewedBy = None, reviewedAt = None, reviewNote = None\<rparr>)],
      outbox := [EvParticipantJoined ''w1'' ''bob'' PENDING VIA_WAITLIST]\<rparr>"
  by (simp add: storeJoined_def joinCampaign_def storeW_def bob_def store_ops examples)

text \<open>
  C2, as stated, fails: the record that a WAITLIST join creates is a waitlist response,
  and \<open>banParticipant\<close> writes the table of campaign applications, not the responses.
  After \<open>bob\<close> has joined \<open>w1\<close> with answers and \<open>alice\<close> has banned him, his
  waitlist response is still PENDING.
\<close>

theorem ban_keeps_waitlist_response_pending:
  "fst (joinCampaign pubAll ''w1'' bob (Some [(''why'', ''clips'')]) storeW) = Inr (PENDING, WAITLIST)
   \<and> map_option responseStatus (response_findUnique storeJoined ''w1'' ''bob'') = Some ST_PENDING
   \<and> fst (banParticipant pubAll 9 ''w1'' ''bob'' alice None storeJoined) = Inr ()
   \<and> map_option responseStatus
        (response_findUnique (snd (banParticipant pubAll 9 ''w1'' ''bob'' alice None storeJoined))
           ''w1'' ''bob'') = Some ST_PENDING"
  unfolding storeJoined_eq
  by (simp add: joinCampaign_def banParticipant_def storeW_def bob_def store_ops examples)

lemma banParticipant_ok:
  assumes auth: "getParticipantRole s k (userId user) = Some CREATOR
               \<or> getParticipantRole s k (userId user) = Some ADMIN \<or> isStaff user"
    and nb: "ban_findUnique s k target = None"
    and p: "pub (EvParticipantLeft k target BANNED)"
  shows "banParticipant pub now k target user reason s =
     (Inr (),
      s\<lparr>bans := bans s @ [((k, target), reason)],
        participants := deleteWhere (\<lambda>j. j = (k, target)) (participants s),
        applications := map (\<lambda>a. if applicationCampaign a = k \<and> applicationUser a = target
                                      \<and> applicationStatus a = ST_PENDING
                                   then a\<lparr>applicationStatus := ST_REJECTED, decidedAt := Some now\<rparr>
                                   else a) (applications s),
        outbox := outbox s @ [EvParticipantLeft k target BANNED]\<rparr>)"
  using assms
  by (auto simp: banParticipant_def ban_create_def ban_findUnique_def andThen_def
      participant_deleteMany_def application_updateMany_def publish_def Let_def)

text \<open>
  C2, amended. A ban by the creator, an admin or staff of a target that is not yet banned,
  with a publisher that accepts the event, succeeds whether or not the target had a
  participant row; afterwards the target has no participant row, has a ban record, every
  PENDING campaign application of the target for this campaign is REJECTED (the other
  applications are as before), and the waitlist responses are untouched.
\<close>

theorem ban_effects:
  assumes auth: "getParticipantRole s k (userId user) = Some CREATOR
               \<or> getParticipantRole s k (userId user) = Some ADMIN \<or> isStaff user"
    and nb: "ban_findUnique s k target = None"
    and p: "pub (EvParticipantLeft k target BANNED)"
  shows "fst (banParticipant pub now k target user reason s) = Inr ()
       \<and> participant_findUnique (snd (banParticipant pub now k target user reason s)) k target = None
       \<and> ban_findUnique (snd (banParticipant pub now k target user reason s)) k target = Some reason
       \<and> applications (snd (banParticipant pub now k target user reason s)) =
           map (\<lambda>a. if applicationCampaign a = k \<and> applicationUser a = target
                        \<and> applicationStatus a = ST_PENDING
                     then a\<lparr>applicationStatus := ST_REJECTED, decidedAt := Some now\<rparr>
                     else a) (applications s)
       \<and> responses (snd (banParticipant pub now k target user reason s)) = responses s"
proof -
  have m: "map_of (bans s) (k, target) = None"
    using nb by (simp add: ban_findUnique_def)
  show ?thesis
    unfolding banParticipant_ok[where pub = pub, OF auth nb p]
    by (simp add: participant_findUnique_def ban_findUnique_def map_of_deleteWhere m
        map_add_def[symmetric] map_add_Some_iff)
qed

theorem ban_effects_witness:
  "getParticipantRole storeW ''w1'' (userId alice) = Some CREATOR
   \<and> ban_findUnique storeW ''w1'' ''carol'' = None
   \<and> participant_findUnique storeW ''w1'' ''carol'' = None
   \<and> pubAll (EvParticipantLeft ''w1'' ''carol'' BANNED)
   \<and> fst (banParticipant pubAll 9 ''w1'' ''carol'' alice None storeW) = Inr ()
   \<and> getParticipantRole storeJoined ''w1'' (userId alice) = Some CREATOR
   \<and> ban_findUnique storeJoined ''w1'' ''bob'' = None
   \<and> pubAll (EvParticipantLeft ''w1'' ''bob'' BANNED)
   \<and> participant_findUnique storeJoined ''w1'' ''bob'' = Some PENDING
   \<and> participant_findUnique (snd (banParticipant pubAll 9 ''w1'' ''bob'' alice None storeJoined))
        ''w1'' ''bob'' = None
   \<and> map applicationStatus
        (applications (snd (banParticipant pubAll 9 ''w1'' ''bob'' alice None storeJoined)))
        = [ST_REJECTED]"
proof -
  have a1: "getParticipantRole storeW ''w1'' (userId alice) = Some CREATOR"
    by (simp add: storeW_def store_ops examples)
  have a2: "ban_findUnique storeW ''w1'' ''carol'' = None"
    by (simp add: storeW_def store_ops)
  have a3: "participant_findUnique storeW ''w1'' ''carol'' = None"
    by (simp add: storeW_def store_ops)
  have b1: "getParticipantRole storeJoined ''w1'' (userId alice) = Some CREATOR"
    by (simp add: storeJoined_eq storeW_def store_ops examples)
  have b2: "ban_findUnique storeJoined ''w1'' ''bob'' = None"
    by (simp add: storeJoined_eq storeW_def store_ops)
  have b3: "participant_findUnique storeJoined ''w1'' ''bob'' = Some PENDING"
    by (simp add: storeJoined_eq storeW_def store_ops)
  have p: "\<And>e. pubAll e" by (simp add: pubAll_def)
  have apps: "applications storeJoined = [\<lparr>applicationCampaign = ''w1'', applicationUser = ''bob'',
                       applicationStatus = ST_PENDING, decidedAt = None\<rparr>]"
    by (simp add: storeJoined_eq storeW_def)
  from ban_effects [where pub = pubAll and now = 9 and reason = None, OF disjI1 [OF a1] a2 p]
    ban_effects [where pub = pubAll and now = 9 and reason = None, OF disjI1 [OF b1] b2 p]
    a1 a2 a3 b1 b2 b3 p apps
  show ?thesis by simp
qed

subsection \<open>The closing sweep\<close>

lemma map_fst_updateWhere: "map fst (updateWhere P f xs) = map fst xs"
  by (induction xs) (auto simp: updateWhere_def)

lemma updateWhere_twice:
  "(\<And>x. f (f x) = f x) \<Longrightarrow>
   updateWhere P f (updateWhere Q f xs) = updateWhere (\<lambda>k. Q k \<or> P k) f xs"
  by (induction xs) (auto simp: updateWhere_def)

lemma updateWhere_never: "updateWhere (\<lambda>k. False) f xs = xs"
  by (induction xs) (auto simp: updateWhere_def)

lemma autoCloseLoop_result:
  "fst ` set rows \<subseteq> fst ` set (campaigns s) \<Longrightarrow>
   autoCloseLoop pub now rows n s =
     (n + length (filter (\<lambda>row. pub (dateReachedEvent row)) rows),
      s\<lparr>campaigns := updateWhere (\<lambda>k. k \<in> fst ` set rows) (endedBy now) (campaigns s),
        outbox := outbox s @ filter pub (map dateReachedEvent rows)\<rparr>)"
proof (induction rows arbitrary: n s)
  case Nil
  then show ?case by (simp add: updateWhere_never)
next
  case (Cons row rows)
  let ?f = "\<lambda>x. x\<lparr>status := ENDED, archivedAt := Some now\<rparr>"
  have f: "?f = endedBy now" by (simp add: endedBy_def fun_eq_iff)
  have idem: "\<And>x. endedBy now (endedBy now x) = endedBy now x" by (simp add: endedBy_def)
  from Cons.prems have "fst row \<in> fst ` set (campaigns s)" by simp
  then obtain c where c: "map_of (campaigns s) (fst row) = Some c"
    by (metis weak_map_of_SomeI map_of_eq_None_iff not_Some_eq)
  let ?s1 = "s\<lparr>campaigns := updateWhere (\<lambda>j. j = fst row) (endedBy now) (campaigns s)\<rparr>"
  have u: "campaign_update (fst row) ?f s = (Inr (endedBy now c), ?s1)"
    using c by (simp add: campaign_update_def f)
  have keys: "fst ` set (updateWhere (\<lambda>j. j = fst row) (endedBy now) (campaigns s))
                = fst ` set (campaigns s)"
    using map_fst_updateWhere[of "\<lambda>j. j = fst row" "endedBy now" "campaigns s"]
    by (metis set_map)
  have sub: "\<And>ob. fst ` set rows \<subseteq> fst ` set (campaigns (?s1\<lparr>outbox := ob\<rparr>))"
    using Cons.prems by (simp add: keys)
  have sub1: "fst ` set rows \<subseteq> fst ` set (campaigns ?s1)"
    using Cons.prems by (simp add: keys)
  have comb: "updateWhere (\<lambda>k. k \<in> fst ` set rows) (endedBy now)
                (updateWhere (\<lambda>j. j = fst row) (endedBy now) (campaigns s))
              = updateWhere (\<lambda>k. k \<in> fst ` set (row # rows)) (endedBy now) (campaigns s)"
    by (simp add: updateWhere_twice[OF idem])
  show ?case
  proof (cases "pub (dateReachedEvent row)")
    case True
    have "autoCloseLoop pub now (row # rows) n s =
            autoCloseLoop pub now rows (n + 1) (?s1\<lparr>outbox := outbox s @ [dateReachedEvent row]\<rparr>)"
      using True by (simp add: u publish_def dateReachedEvent_def)
    also have "\<dots> = (n + 1 + length (filter (\<lambda>row. pub (dateReachedEvent row)) rows),
        s\<lparr>campaigns := updateWhere (\<lambda>k. k \<in> fst ` set (row # rows)) (endedBy now) (campaigns s),
          outbox := (outbox s @ [dateReachedEvent row]) @ filter pub (map dateReachedEvent rows)\<rparr>)"
      unfolding Cons.IH[OF sub] comb[symmetric] by simp
    finally show ?thesis using True by simp
  next
    case False
    have "autoCloseLoop pub now (row # rows) n s = autoCloseLoop pub now rows n ?s1"
      using False by (simp add: u publish_def dateReachedEvent_def)
    also have "\<dots> = (n + length (filter (\<lambda>row. pub (dateReachedEvent row)) rows),
        s\<lparr>campaigns := updateWhere (\<lambda>k. k \<in> fst ` set (row # rows)) (endedBy now) (campaigns s),
          outbox := outbox s @ filter pub (map dateReachedEvent rows)\<rparr>)"
      unfolding Cons.IH[OF sub1] comb[symmetric] by simp
    finally show ?thesis using False by simp
  qed
qed

lemma expired_subset: "fst ` set (expiredCampaigns now s) \<subseteq> fst ` set (campaigns s)"
  by (auto simp: expiredCampaigns_def)

lemma autoCloseCampaigns_result:
  "autoCloseCampaigns pub now s =
     (length (filter (\<lambda>row. pub (dateReachedEvent row)) (expiredCampaigns now s)),
      s\<lparr>campaigns := updateWhere (\<lambda>k. k \<in> fst ` set (expiredCampaigns now s)) (endedBy now)
                        (campaigns s),
        outbox := outbox s @ filter pub (map dateReachedEvent (expiredCampaigns now s))\<rparr>)"
  unfolding autoCloseCampaigns_def
  using autoCloseLoop_result[OF expired_subset, where pub = pub and n = 0] by simp

lemma expired_after:
  "fst ` set (filter (\<lambda>(k, c). status c = ACTIVE \<and> endDate c < now) xs) \<subseteq> ys \<Longrightarrow>
   filter (\<lambda>(k, c). status c = ACTIVE \<and> endDate c < now)
     (updateWhere (\<lambda>k. k \<in> ys) (endedBy now') xs) = []"
  by (induction xs) (auto simp: updateWhere_def endedBy_def split: if_splits)

text \<open>
  C7, as stated, fails in its last part: the sweep writes ENDED before it publishes, so a
  campaign whose publication fails is not counted but is no longer ACTIVE. With a
  publisher that refuses every event the sweep over \<open>store0\<close> returns 0 and leaves
  \<open>c1\<close> ENDED.
\<close>

theorem autoClose_failed_publish_leaves_ended:
  "status campaign0 = ACTIVE
   \<and> expiredCampaigns 100 store0 = [(''c1'', campaign0)]
   \<and> fst (autoCloseCampaigns pubNone 100 store0) = 0
   \<and> map_option status (campaign_findUnique (snd (autoCloseCampaigns pubNone 100 store0)) ''c1'')
       = Some ENDED"
  by (simp add: autoCloseCampaigns_def expiredCampaigns_def store_ops examples)

text \<open>
  C7, amended. The sweep selects every ACTIVE campaign whose end date has passed, sets each
  of them to ENDED with the sweep's time as archive date whether or not its event is then
  accepted, publishes the \<open>ended\<close> event with reason DATE_REACHED for those the
  publisher accepts, and goes through the whole selection; it returns the number of
  selected campaigns whose update and publication both succeeded. No selected campaign is
  left for a second sweep: a campaign whose publication failed stays ENDED and uncounted.
\<close>

theorem autoClose_sweep:
  "fst (autoCloseCampaigns pub now s)
     = length (filter (\<lambda>row. pub (dateReachedEvent row)) (expiredCampaigns now s))
   \<and> campaigns (snd (autoCloseCampaigns pub now s))
     = updateWhere (\<lambda>k. k \<in> fst ` set (expiredCampaigns now s)) (endedBy now) (campaigns s)
   \<and> outbox (snd (autoCloseCampaigns pub now s))
     = outbox s @ filter pub (map dateReachedEvent (expiredCampaigns now s))
   \<and> expiredCampaigns now (snd (autoCloseCampaigns pub now s)) = []"
proof -
  have "expiredCampaigns now (snd (autoCloseCampaigns pub now s)) = []"
    unfolding autoCloseCampaigns_result
    using expired_after[OF subset_refl, of now "campaigns s" now]
    by (simp add: expiredCampaigns_def)
  then show ?thesis by (simp add: autoCloseCampaigns_result)
qed

subsection \<open>Status transitions\<close>

lemma createPrizes_result:
  "\<exists>pd. createPrizes k ranks i s = (Inr (), s\<lparr>prizeDistributions := pd\<rparr>)"
proof (induction ranks arbitrary: i s)
  case Nil
  have "createPrizes k [] i s = (Inr (), s\<lparr>prizeDistributions := prizeDistributions s\<rparr>)"
    by simp
  then show ?case by (rule exI)
next
  case (Cons r ranks)
  let ?s1 = "s\<lparr>prizeDistributions := prizeDistributions s @ [(k, int i + 1, snd r, fst r)]\<rparr>"
  from Cons.IH[of "i + 1" ?s1] obtain pd where
    "createPrizes k ranks (i + 1) ?s1 = (Inr (), ?s1\<lparr>prizeDistributions := pd\<rparr>)" by blast
  then have "createPrizes k (r # ranks) i s = (Inr (), s\<lparr>prizeDistributions := pd\<rparr>)"
    by simp
  then show ?case by (rule exI)
qed

lemma createInvites_result:
  "\<exists>iv. createInvites k us s = (Inr (), s\<lparr>invites := iv\<rparr>)"
proof (induction us arbitrary: s)
  case Nil
  have "createInvites k [] s = (Inr (), s\<lparr>invites := invites s\<rparr>)"
    by simp
  then show ?case by (rule exI)
next
  case (Cons u us)
  let ?s1 = "s\<lparr>invites := invites s @ [(k, u, ST_PENDING)]\<rparr>"
  from Cons.IH[of ?s1] obtain iv where
    "createInvites k us ?s1 = (Inr (), ?s1\<lparr>invites := iv\<rparr>)" by blast
  then have "createInvites k (u # us) s = (Inr (), s\<lparr>invites := iv\<rparr>)"
    by simp
  then show ?case by (rule exI)
qed

lemma createQuestions_campaigns:
  "campaigns (snd (createQuestions k qs i created s)) = campaigns s"
  by (induction qs arbitrary: i created s) (simp_all add: Let_def)

lemma forward_same: "campaigns s' = campaigns s \<Longrightarrow> forward s s'"
  unfolding forward_def
  by (rule exI[of _ "\<lambda>k. False"], rule exI[of _ "\<lambda>x. x"]) (simp add: updateWhere_never)

lemma forward_update:
  "campaigns s' = updateWhere P f (campaigns s) \<Longrightarrow>
   (\<And>x. status (f x) = status x \<or> status (f x) = ENDED) \<Longrightarrow> forward s s'"
  unfolding forward_def by blast

lemma forward_either:
  "campaigns s' = campaigns s \<or> campaigns s' = updateWhere P f (campaigns s) \<Longrightarrow>
   (\<And>x. status (f x) = status x \<or> status (f x) = ENDED) \<Longrightarrow> forward s s'"
  using forward_same forward_update by blast

lemma forward_lookup:
  assumes "forward s s'" and "campaign_findUnique s k = Some c"
  shows "\<exists>c'. campaign_findUnique s' k = Some c' \<and> (status c' = status c \<or> status c' = ENDED)"
proof -
  from assms(1) obtain P f where e: "campaigns s' = updateWhere P f (campaigns s)"
    and f: "\<forall>x. status (f x) = status x \<or> status (f x) = ENDED"
    unfolding forward_def by blast
  have "campaign_findUnique s' k = (if P k then Some (f c) else Some c)"
    using assms(2) by (simp add: campaign_findUnique_def e map_of_updateWhere)
  then show ?thesis using f by auto
qed

lemma keeps_andThen:
  assumes "\<And>s. campaigns (snd (m s)) = campaigns s"
    and "\<And>a s. campaigns (snd (f a s)) = campaigns s"
  shows "campaigns (snd (andThen m f s)) = campaigns s"
proof (cases "m s")
  case (Pair r s1)
  have "campaigns s1 = campaigns s" using assms(1)[of s] Pair by simp
  then show ?thesis
    using assms(2) Pair by (cases r) (simp_all add: andThen_def)
qed

lemma keeps_return: "campaigns (snd (return a s)) = campaigns s"
  by (simp add: return_def)

lemma keeps_publish: "campaigns (snd (publish pub e s)) = campaigns s"
  by (simp add: publish_def)

lemma keeps_createPrizes: "campaigns (snd (createPrizes k ranks i s)) = campaigns s"
  using createPrizes_result[of k ranks i s] by auto

lemma update_then_keeps:
  assumes "\<And>a s. campaigns (snd (f a s)) = campaigns s"
  shows "campaigns (snd (andThen (campaign_update k g) f s)) = campaigns s
       \<or> campaigns (snd (andThen (campaign_update k g) f s))
            = updateWhere (\<lambda>j. j = k) g (campaigns s)"
proof (cases "map_of (campaigns s) k")
  case None
  then show ?thesis by (simp add: andThen_def campaign_update_def)
next
  case (Some c)
  then show ?thesis by (simp add: andThen_def campaign_update_def assms)
qed

lemma keeps_then:
  assumes "\<And>s. campaigns (snd (m s)) = campaigns s"
    and "\<And>a s. campaigns (snd (f a s)) = campaigns s
                \<or> campaigns (snd (f a s)) = updateWhere P g (campaigns s)"
  shows "campaigns (snd (andThen m f s)) = campaigns s
       \<or> campaigns (snd (andThen m f s)) = updateWhere P g (campaigns s)"
proof (cases "m s")
  case (Pair r s1)
  have e: "campaigns s1 = campaigns s" using assms(1)[of s] Pair by simp
  show ?thesis
  proof (cases r)
    case (Inl err)
    then show ?thesis using Pair e by (simp add: andThen_def)
  next
    case (Inr a)
    then show ?thesis using Pair e assms(2)[of a s1] by (simp add: andThen_def)
  qed
qed

lemma updateCampaign_campaigns:
  "campaigns (snd (updateCampaign pub k data user s)) = campaigns s
   \<or> campaigns (snd (updateCampaign pub k data user s))
        = updateWhere (\<lambda>j. j = k) (applyPatch data) (campaigns s)"
proof (cases "getCampaign s k")
  case (Inl e)
  then show ?thesis by (simp add: updateCampaign_def)
next
  case (Inr cp)
  obtain c permissions where cp: "cp = (c, permissions)" by (cases cp)
  let ?prizes = "case patchPrizeDistributions data of
                  None \<Rightarrow> return ()
                | Some ranks \<Rightarrow>
                    (\<lambda>s0. createPrizes k ranks 0
                       (s0\<lparr>prizeDistributions :=
                             deleteWhere (\<lambda>j. j = k) (prizeDistributions s0)\<rparr>))"
  let ?notify = "\<lambda>oldStatus. case patchStatus data of
                        None \<Rightarrow> return ()
                      | Some newStatus \<Rightarrow>
                          if newStatus \<noteq> oldStatus
                          then publish pub (EvStatusChanged k oldStatus newStatus (userId user))
                          else return ()"
  have k1: "\<And>s. campaigns (snd (?prizes s)) = campaigns s"
    by (cases "patchPrizeDistributions data") (simp_all add: keeps_return keeps_createPrizes)
  have k2: "\<And>os s. campaigns (snd (?notify os s)) = campaigns s"
    by (cases "patchStatus data") (simp_all add: keeps_return keeps_publish)
  have k3: "\<And>os u s. campaigns (snd (andThen (?notify os) (\<lambda>_. return u) s)) = campaigns s"
    by (rule keeps_andThen) (simp_all only: k2 keeps_return)
  have main: "campaigns (snd (andThen ?prizes
                 (\<lambda>_. let oldStatus = status c in
                    andThen (campaign_update k (applyPatch data))
                    (\<lambda>updated. andThen (?notify oldStatus) (\<lambda>_. return updated))) s)) = campaigns s
       \<or> campaigns (snd (andThen ?prizes
                 (\<lambda>_. let oldStatus = status c in
                    andThen (campaign_update k (applyPatch data))
                    (\<lambda>updated. andThen (?notify oldStatus) (\<lambda>_. return updated))) s))
            = updateWhere (\<lambda>j. j = k) (applyPatch data) (campaigns s)"
    unfolding Let_def
    by (rule keeps_then[OF k1]) (rule update_then_keeps, rule k3)
  show ?thesis
    using main unfolding updateCampaign_def Inr cp Let_def
    by (simp only: sum.case prod.case split: if_split) simp
qed

lemma keeps_participant_create: "campaigns (snd (participant_create k u r s)) = campaigns s"
  by (simp add: participant_create_def)

lemma keeps_participant_update: "campaigns (snd (participant_update k u r s)) = campaigns s"
  by (simp add: participant_update_def split: option.split)

lemma keeps_participant_delete: "campaigns (snd (participant_delete k u s)) = campaigns s"
  by (simp add: participant_delete_def split: option.split)

lemma keeps_participant_deleteMany: "campaigns (snd (participant_deleteMany k u s)) = campaigns s"
  by (simp add: participant_deleteMany_def)

lemma keeps_ban_create: "campaigns (snd (ban_create k u r s)) = campaigns s"
  by (simp add: ban_create_def)

lemma keeps_response_create: "campaigns (snd (response_create k u r s)) = campaigns s"
  by (simp add: response_create_def)

lemma keeps_response_updateMany: "campaigns (snd (response_updateMany k u f s)) = campaigns s"
  by (simp add: response_updateMany_def)

lemma keeps_application_updateMany: "campaigns (snd (application_updateMany P f s)) = campaigns s"
  by (simp add: application_updateMany_def)

lemmas keeps =
  keeps_return keeps_publish keeps_participant_create keeps_participant_update
  keeps_participant_delete keeps_participant_deleteMany keeps_ban_create
  keeps_response_create keeps_response_updateMany keeps_application_updateMany

lemma closeCampaign_campaigns:
  "campaigns (snd (closeCampaign pub now k user s)) = campaigns s
   \<or> campaigns (snd (closeCampaign pub now k user s))
        = updateWhere (\<lambda>j. j = k) (\<lambda>x. x\<lparr>status := ENDED, archivedAt := Some now\<rparr>) (campaigns s)"
proof (cases "getCampaign s k")
  case (Inl e)
  then show ?thesis by (simp add: closeCampaign_def)
next
  case (Inr cp)
  obtain c permissions where cp: "cp = (c, permissions)" by (cases cp)
  have main: "\<And>e. campaigns (snd (andThen
              (campaign_update k (\<lambda>x. x\<lparr>status := ENDED, archivedAt := Some now\<rparr>))
              (\<lambda>updated. andThen (publish pub e) (\<lambda>_. return updated)) s)) = campaigns s
     \<or> campaigns (snd (andThen
              (campaign_update k (\<lambda>x. x\<lparr>status := ENDED, archivedAt := Some now\<rparr>))
              (\<lambda>updated. andThen (publish pub e) (\<lambda>_. return updated)) s))
        = updateWhere (\<lambda>j. j = k) (\<lambda>x. x\<lparr>status := ENDED, archivedAt := Some now\<rparr>) (campaigns s)"
    by (rule update_then_keeps, rule keeps_andThen) (simp_all only: keeps)
  show ?thesis
    using main unfolding closeCampaign_def Inr cp
    by (simp only: sum.case prod.case split: if_split) simp
qed

lemma forward_fundCampaign: "forward s (snd (fundCampaign pub k user s))"
proof (cases "getCampaign s k")
  case (Inl e)
  then show ?thesis by (simp add: fundCampaign_def forward_same)
next
  case (Inr cp)
  obtain c permissions where cp: "cp = (c, permissions)" by (cases cp)
  let ?fee = "Math_round (roundToDouble (totalBudget c * double_0_1))"
  let ?f = "\<lambda>x. x\<lparr>isFunded := True, platformFee := ?fee,
                 remainingBudget := roundToDouble (totalBudget c - of_int ?fee)\<rparr>"
  have main: "\<And>e. campaigns (snd (andThen (campaign_update k ?f)
              (\<lambda>updated. andThen (publish pub e) (\<lambda>_. return updated)) s)) = campaigns s
     \<or> campaigns (snd (andThen (campaign_update k ?f)
              (\<lambda>updated. andThen (publish pub e) (\<lambda>_. return updated)) s))
        = updateWhere (\<lambda>j. j = k) ?f (campaigns s)"
    by (rule update_then_keeps, rule keeps_andThen) (simp_all only: keeps)
  have "campaigns (snd (fundCampaign pub k user s)) = campaigns s
         \<or> campaigns (snd (fundCampaign pub k user s)) = updateWhere (\<lambda>j. j = k) ?f (campaigns s)"
    using main unfolding fundCampaign_def Inr cp Let_def
    by (simp only: sum.case prod.case split: if_split) simp
  then show ?thesis by (rule forward_either) simp
qed

lemma joinCampaign_campaigns: "campaigns (snd (joinCampaign pub k user a s)) = campaigns s"
  unfolding joinCampaign_def Let_def
  by (auto split: option.split intro!: keeps_andThen simp: keeps)

lemma approveParticipant_campaigns:
  "campaigns (snd (approveParticipant pub now k t user s)) = campaigns s"
  unfolding approveParticipant_def Let_def
  by (auto split: option.split intro!: keeps_andThen simp: keeps)

lemma removeParticipant_campaigns:
  "campaigns (snd (removeParticipant pub k t user reason s)) = campaigns s"
  unfolding removeParticipant_def Let_def
  by (auto split: option.split intro!: keeps_andThen simp: keeps)

lemma banParticipant_campaigns:
  "campaigns (snd (banParticipant pub now k t user reason s)) = campaigns s"
  unfolding banParticipant_def Let_def
  by (auto split: option.split intro!: keeps_andThen simp: keeps)

lemma setWaitlistQuestions_campaigns:
  "campaigns (snd (setWaitlistQuestions k qs user s)) = campaigns s"
  by (simp add: setWaitlistQuestions_def Let_def createQuestions_campaigns)

lemma forward_handleEvent: "forward s (snd (handleEvent ev s))"
proof (cases ev)
  case (ClipSubmitted k)
  let ?f = "\<lambda>c. c\<lparr>pendingClips := pendingClips c + 1\<rparr>"
  have "campaigns (snd (handleEvent ev s)) = campaigns s
      \<or> campaigns (snd (handleEvent ev s)) = updateWhere (\<lambda>j. j = k) ?f (campaigns s)"
    unfolding ClipSubmitted handleEvent.simps
    by (rule update_then_keeps) (simp only: keeps)
  then show ?thesis by (rule forward_either) simp
next
  case (ClipApproved k)
  let ?f = "\<lambda>c. c\<lparr>approvedClips := approvedClips c + 1\<rparr>"
  have "campaigns (snd (handleEvent ev s)) = campaigns s
      \<or> campaigns (snd (handleEvent ev s)) = updateWhere (\<lambda>j. j = k) ?f (campaigns s)"
    unfolding ClipApproved handleEvent.simps
    by (rule update_then_keeps) (simp only: keeps)
  then show ?thesis by (rule forward_either) simp
next
  case (ClipRejected k)
  let ?f = "\<lambda>c. c\<lparr>rejectedClips := rejectedClips c + 1\<rparr>"
  have "campaigns (snd (handleEvent ev s)) = campaigns s
      \<or> campaigns (snd (handleEvent ev s)) = updateWhere (\<lambda>j. j = k) ?f (campaigns s)"
    unfolding ClipRejected handleEvent.simps
    by (rule update_then_keeps) (simp only: keeps)
  then show ?thesis by (rule forward_either) simp
next
  case (StatsUpdated x)
  then show ?thesis by (simp add: forward_same)
qed

lemma forward_autoClose: "forward s (snd (autoCloseCampaigns pub now s))"
proof -
  have "campaigns (snd (autoCloseCampaigns pub now s))
      = updateWhere (\<lambda>k. k \<in> fst ` set (expiredCampaigns now s)) (endedBy now) (campaigns s)"
    by (simp add: autoCloseCampaigns_result)
  then show ?thesis by (rule forward_update) (simp add: endedBy_def)
qed

lemma forward_perform: "\<not> writesStatus op \<Longrightarrow> forward s (perform pub op s)"
proof (cases op)
  case (OpUpdate k data user)
  assume "\<not> writesStatus op"
  then have st: "\<And>x. status (applyPatch data x) = status x"
    using OpUpdate by (simp add: applyPatch_def nullish_def)
  show ?thesis
    unfolding OpUpdate perform.simps
    by (rule forward_either[OF updateCampaign_campaigns]) (simp add: st)
next
  case (OpClose now k user)
  show ?thesis
    unfolding OpClose perform.simps
    by (rule forward_either[OF closeCampaign_campaigns]) simp
qed (simp_all add: forward_autoClose forward_fundCampaign forward_handleEvent forward_same
      joinCampaign_campaigns approveParticipant_campaigns removeParticipant_campaigns
      banParticipant_campaigns setWaitlistQuestions_campaigns)

lemma performAll_status:
  "list_all (\<lambda>op. \<not> writesStatus op) ops \<Longrightarrow> campaign_findUnique s k = Some c \<Longrightarrow>
   \<exists>c'. campaign_findUnique (performAll pub ops s) k = Some c'
        \<and> (status c' = status c \<or> status c' = ENDED)"
proof (induction ops arbitrary: s c)
  case Nil
  then show ?case by simp
next
  case (Cons op ops)
  from Cons.prems have nw: "\<not> writesStatus op" and rest: "list_all (\<lambda>op. \<not> writesStatus op) ops"
    by simp_all
  from forward_lookup[OF forward_perform[OF nw] Cons.prems(2)]
  obtain c1 where c1: "campaign_findUnique (perform pub op s) k = Some c1"
    and s1: "status c1 = status c \<or> status c1 = ENDED" by blast
  from Cons.IH[OF rest c1] obtain c' where
    "campaign_findUnique (performAll pub ops (perform pub op s)) k = Some c'"
    "status c' = status c1 \<or> status c' = ENDED" by blast
  then show ?case using s1 by auto
qed

lemma updateCampaign_writes_status:
  assumes c: "campaign_findUnique s k = Some c"
    and cr: "participant_findUnique s k (userId user) = Some CREATOR"
    and st: "patchStatus data = Some st"
  shows "map_option status (campaign_findUnique (snd (updateCampaign pub k data user s)) k) = Some st"
proof -
  let ?prizes = "case patchPrizeDistributions data of
                  None \<Rightarrow> return ()
                | Some ranks \<Rightarrow>
                    (\<lambda>s0. createPrizes k ranks 0
                       (s0\<lparr>prizeDistributions :=
                             deleteWhere (\<lambda>j. j = k) (prizeDistributions s0)\<rparr>))"
  have "\<exists>pd. ?prizes s = (Inr (), s\<lparr>prizeDistributions := pd\<rparr>)"
  proof (cases "patchPrizeDistributions data")
    case None
    have "return () s = (Inr (), s\<lparr>prizeDistributions := prizeDistributions s\<rparr>)"
      by (simp add: return_def)
    then show ?thesis unfolding None option.case by (rule exI)
  next
    case (Some ranks)
    from createPrizes_result[of k ranks 0
        "s\<lparr>prizeDistributions := deleteWhere (\<lambda>j. j = k) (prizeDistributions s)\<rparr>"]
    show ?thesis unfolding Some by (simp only: option.case) simp
  qed
  then obtain pd where pd: "?prizes s = (Inr (), s\<lparr>prizeDistributions := pd\<rparr>)" by blast
  have m: "map_of (campaigns s) k = Some c" using c by (simp add: campaign_findUnique_def)
  have g: "getCampaign s k = Inr (c, map_of (permissionsTable s) k)"
    using c by (simp add: getCampaign_def)
  have sa: "status (applyPatch data c) = st"
    using st by (simp add: applyPatch_def nullish_def)
  have "campaigns (snd (updateCampaign pub k data user s))
          = updateWhere (\<lambda>j. j = k) (applyPatch data) (campaigns s)"
    unfolding updateCampaign_def g
    using cr st pd m
    by (simp add: Let_def andThen_def campaign_update_def publish_def return_def)
  then show ?thesis
    by (simp add: campaign_findUnique_def map_of_updateWhere m sa)
qed

text \<open>
  C4, as stated, fails: \<open>updateCampaign\<close> writes the patch as it is, its status
  included. After \<open>alice\<close> has closed \<open>c1\<close>, her update with the status ACTIVE brings
  the ENDED campaign back to ACTIVE.
\<close>

theorem update_reopens_ended_campaign:
  "map_option status (campaign_findUnique storeClosed ''c1'') = Some ENDED
   \<and> map_option status
        (campaign_findUnique (snd (updateCampaign pubAll ''c1'' activatePatch alice storeClosed)) ''c1'')
       = Some ACTIVE"
proof -
  have c: "storeClosed = store0\<lparr>campaigns := [(''c1'', campaign0\<lparr>status := ENDED, archivedAt := Some 60\<rparr>)],
      outbox := [EvEnded ''c1'' MANUAL False 0 0 0]\<rparr>"
    by (simp add: storeClosed_def closeCampaign_def store_ops examples)
  show ?thesis
    unfolding c
    by (simp add: updateCampaign_def activatePatch_def emptyPatch_def applyPatch_def store_ops
        examples)
qed

text \<open>
  C4, amended. Along every sequence of calls of \<open>updateCampaign\<close> with a patch that
  carries no status, \<open>closeCampaign\<close>, \<open>autoCloseCampaigns\<close>, \<open>fundCampaign\<close>,
  the participant and waitlist operations and the event handlers, the status of a campaign
  either stays what it was or becomes ENDED, so an ENDED campaign stays ENDED and an ACTIVE
  one never returns to DRAFT. \<open>updateCampaign\<close> by the creator with a patch that
  carries a status writes that status, whatever the stored one is.
\<close>

theorem status_only_forward:
  assumes "campaign_findUnique s k = Some c"
  shows "(list_all (\<lambda>op. \<not> writesStatus op) ops \<longrightarrow>
           (\<exists>c'. campaign_findUnique (performAll pub ops s) k = Some c'
                 \<and> (status c' = status c \<or> status c' = ENDED)))
       \<and> (participant_findUnique s k (userId user) = Some CREATOR \<and> patchStatus data = Some st \<longrightarrow>
           map_option status (campaign_findUnique (snd (updateCampaign pub k data user s)) k)
             = Some st)"
  using assms performAll_status updateCampaign_writes_status by blast

theorem status_only_forward_witness:
  "campaign_findUnique store0 ''c1'' = Some campaign0
   \<and> list_all (\<lambda>op. \<not> writesStatus op) sweepOps
   \<and> (\<exists>c'. campaign_findUnique (performAll pubAll sweepOps store0) ''c1'' = Some c'
          \<and> (status c' = status campaign0 \<or> status c' = ENDED))
   \<and> participant_findUnique store0 ''c1'' (userId alice) = Some CREATOR
   \<and> patchStatus activatePatch = Some ACTIVE
   \<and> map_option status
        (campaign_findUnique (snd (updateCampaign pubNone ''c1'' activatePatch alice store0)) ''c1'')
       = Some ACTIVE"
proof -
  have h1: "campaign_findUnique store0 ''c1'' = Some campaign0"
    by (simp add: campaign_findUnique_def store0_def)
  have h2: "list_all (\<lambda>op. \<not> writesStatus op) sweepOps"
    by (simp add: sweepOps_def retitlePatch_def emptyPatch_def)
  have h3: "participant_findUnique store0 ''c1'' (userId alice) = Some CREATOR"
    by (simp add: store_ops examples)
  have h4: "patchStatus activatePatch = Some ACTIVE"
    by (simp add: activatePatch_def emptyPatch_def)
  from status_only_forward [OF h1, where ops = sweepOps and pub = pubAll]
    status_only_forward [OF h1, where user = alice and data = activatePatch and pub = pubNone
      and st = ACTIVE]
    h1 h2 h3 h4
  show ?thesis by blast
qed

subsection \<open>Platform validation\<close>

lemma take_length_prefix: "take (length xs) ys = xs \<longleftrightarrow> prefix xs ys"
  by (metis append_eq_conv_conj prefix_def take_is_prefix)

lemma str_includes_sublist: "str_includes v sub \<longleftrightarrow> sublist sub v"
proof (induction v)
  case Nil
  then show ?case by auto
next
  case (Cons c cs)
  show ?case
    unfolding str_includes.simps Cons.IH take_length_prefix
    by (simp add: sublist_Cons_right)
qed

lemma mapPlatform_Inr: "mapPlatform toLowerCase p = Inr pl \<Longrightarrow> recognizedAs toLowerCase p pl"
  by (auto simp: mapPlatform_def recognizedAs_def str_includes_sublist Let_def split: if_splits)

lemma mapPlatform_Inl:
  "(\<exists>e. mapPlatform toLowerCase p = Inl e) \<longleftrightarrow> \<not> recognized toLowerCase p"
  by (auto simp: mapPlatform_def recognized_def recognizedAs_def str_includes_sublist Let_def)

lemma mapPlatform_error:
  "mapPlatform toLowerCase p = Inl e \<Longrightarrow> e = BadRequest (''Invalid platform: '' @ p)"
  by (auto simp: mapPlatform_def Let_def split: if_splits)

lemma mapPlatforms_Inl:
  "(\<exists>e. mapPlatforms toLowerCase ps = Inl e) \<longleftrightarrow> (\<exists>p \<in> set ps. \<not> recognized toLowerCase p)"
proof (induction ps)
  case Nil
  then show ?case by simp
next
  case (Cons p ps)
  show ?case
  proof (cases "mapPlatform toLowerCase p")
    case (Inl e)
    then have "\<not> recognized toLowerCase p" using mapPlatform_Inl by blast
    then show ?thesis using Inl by simp
  next
    case (Inr x)
    then have "recognized toLowerCase p" using mapPlatform_Inl[of toLowerCase p] by auto
    then show ?thesis using Inr Cons.IH by (auto split: sum.splits)
  qed
qed

lemma mapPlatforms_error:
  "mapPlatforms toLowerCase ps = Inl e \<Longrightarrow> \<exists>msg. e = BadRequest msg"
  by (induction ps) (auto split: sum.splits dest: mapPlatform_error)

lemma mapPlatforms_Inr:
  "mapPlatforms toLowerCase ps = Inr pfs \<Longrightarrow> list_all2 (recognizedAs toLowerCase) ps pfs"
  by (induction ps arbitrary: pfs) (auto split: sum.splits dest: mapPlatform_Inr)

lemma mapPlatform_same_lower:
  "toLowerCase p = toLowerCase q \<Longrightarrow>
   mapPlatform toLowerCase p = Inr pl \<longleftrightarrow> mapPlatform toLowerCase q = Inr pl"
  by (auto simp: mapPlatform_def Let_def)

lemma letter_pair:
  "(a, b) \<in> set (zip ''ABCDEFGHIJKLMNOPQRSTUVWXYZ'' ''abcdefghijklmnopqrstuvwxyz'') \<Longrightarrow>
   lowerChar a = b \<and> lowerChar b = b \<and> (of_char a :: nat) < 128 \<and> (of_char b :: nat) < 128"
  by (simp, elim disjE conjE; simp add: lowerChar_def)

lemma sameLetter_lowerChar: "sameLetter a b \<Longrightarrow> lowerChar a = lowerChar b"
  unfolding sameLetter_def using letter_pair[of a b] letter_pair[of b a] by metis

lemma sameLetter_ascii:
  "sameLetter a b \<Longrightarrow> (of_char a :: nat) < 128 \<Longrightarrow> (of_char b :: nat) < 128"
  unfolding sameLetter_def using letter_pair[of a b] letter_pair[of b a] by metis

lemma sameLetter_strings:
  "list_all2 sameLetter p q \<Longrightarrow> isAscii p \<Longrightarrow>
   isAscii q \<and> asciiLowerCase p = asciiLowerCase q"
proof (induction rule: list_all2_induct)
  case Nil
  then show ?case by (simp add: isAscii_def asciiLowerCase_def)
next
  case (Cons a p b q)
  then show ?case
    using sameLetter_lowerChar[of a b] sameLetter_ascii[of a b]
    by (simp add: isAscii_def asciiLowerCase_def)
qed

lemma mapPlatform_case_insensitive:
  assumes "\<forall>t. isAscii t \<longrightarrow> toLowerCase t = asciiLowerCase t"
    and "isAscii p" and "list_all2 sameLetter p q"
  shows "mapPlatform toLowerCase p = Inr pl \<longleftrightarrow> mapPlatform toLowerCase q = Inr pl"
proof -
  from sameLetter_strings[OF assms(3,2)] have q: "isAscii q"
    and e: "asciiLowerCase p = asciiLowerCase q" by simp_all
  have "toLowerCase p = toLowerCase q" using assms(1,2) q e by simp
  then show ?thesis by (rule mapPlatform_same_lower)
qed

lemma mapPlatform_aliases:
  assumes "\<forall>t. isAscii t \<longrightarrow> toLowerCase t = asciiLowerCase t"
  shows "mapPlatform toLowerCase ''yt'' = Inr YOUTUBE \<and> mapPlatform toLowerCase ''x'' = Inr TWITTER"
proof -
  have "isAscii ''yt''" and "isAscii ''x''" by (simp_all add: isAscii_def)
  then have "toLowerCase ''yt'' = ''yt''" and "toLowerCase ''x'' = ''x''"
    using assms by (simp_all add: asciiLowerCase_def lowerChar_def)
  then show ?thesis by (simp add: mapPlatform_def)
qed

lemma kelvinLowerCase_ascii: "isAscii t \<Longrightarrow> kelvinLowerCase t = asciiLowerCase t"
  by (induction t rule: kelvinLowerCase.induct)
     (auto simp: isAscii_def asciiLowerCase_def)

lemma nbr_andThen:
  assumes "\<And>s. \<forall>m. fst (x s) \<noteq> Inl (BadRequest m)"
    and "\<And>a s. \<forall>m. fst (f a s) \<noteq> Inl (BadRequest m)"
  shows "\<forall>m. fst (andThen x f s) \<noteq> Inl (BadRequest m)"
proof (cases "x s")
  case (Pair r s1)
  show ?thesis
  proof (cases r)
    case (Inl e)
    then show ?thesis using assms(1)[of s] Pair by (simp add: andThen_def)
  next
    case (Inr a)
    then show ?thesis using assms(2)[of a s1] Pair by (simp add: andThen_def)
  qed
qed

lemma createCampaign_valid_platforms:
  assumes "mapPlatforms toLowerCase (dataPlatforms data) = Inr pfs"
  shows "\<forall>m. fst (createCampaign toLowerCase pub newId dflt data creator s) \<noteq> Inl (BadRequest m)"
proof -
  have p: "\<And>k ranks i s. \<forall>m. fst (createPrizes k ranks i s) \<noteq> Inl (BadRequest m)"
    using createPrizes_result by (metis fst_conv sum.distinct(1))
  have i: "\<And>k us s. \<forall>m. fst (createInvites k us s) \<noteq> Inl (BadRequest m)"
    using createInvites_result by (metis fst_conv sum.distinct(1))
  have r: "\<And>a s. \<forall>m. fst (return a s) \<noteq> Inl (BadRequest m)"
    by (simp add: return_def)
  show ?thesis
    unfolding createCampaign_def assms sum.case
    apply (rule nbr_andThen)
     apply (simp add: campaign_create_def)
    apply (rule nbr_andThen)
     apply (simp add: participant_create_def)
    apply (rule nbr_andThen)
     apply (simp add: p r)
    apply (rule nbr_andThen)
     apply (simp add: i r)
    apply (rule nbr_andThen)
     apply (simp add: publish_def)
    apply (rule r)
    done
qed

text \<open>
  C6. Whatever the runtime's lower-casing is, \<open>createCampaign\<close> fails with InvalidInput
  (a BadRequest error) if and only if some string of its platform list is not recognized
  as one of TIKTOK, INSTAGRAM, YOUTUBE and TWITTER, and when the list is accepted every
  string is mapped to a platform it is recognized as (by name or alias). With a runtime
  that lower-cases ASCII text as JavaScript does, the mapping ignores case: an ASCII string
  and any string that differs from it only in the case of letters are mapped to the same
  platform; and the aliases \<open>yt\<close> and \<open>x\<close> are mapped to YOUTUBE and TWITTER.
\<close>

theorem platforms_validated:
  "((\<exists>msg. fst (createCampaign toLowerCase pub newId dflt data creator s) = Inl (BadRequest msg))
      \<longleftrightarrow> (\<exists>p \<in> set (dataPlatforms data). \<not> recognized toLowerCase p))
   \<and> (\<forall>pfs. mapPlatforms toLowerCase (dataPlatforms data) = Inr pfs
         \<longrightarrow> list_all2 (recognizedAs toLowerCase) (dataPlatforms data) pfs)
   \<and> ((\<forall>t. isAscii t \<longrightarrow> toLowerCase t = asciiLowerCase t) \<longrightarrow>
         (\<forall>p q pl. isAscii p \<and> list_all2 sameLetter p q
            \<longrightarrow> (mapPlatform toLowerCase p = Inr pl \<longleftrightarrow> mapPlatform toLowerCase q = Inr pl))
         \<and> mapPlatform toLowerCase ''yt'' = Inr YOUTUBE
         \<and> mapPlatform toLowerCase ''x'' = Inr TWITTER)"
proof -
  have a: "(\<exists>msg. fst (createCampaign toLowerCase pub newId dflt data creator s) = Inl (BadRequest msg))
      \<longleftrightarrow> (\<exists>p \<in> set (dataPlatforms data). \<not> recognized toLowerCase p)"
  proof (cases "mapPlatforms toLowerCase (dataPlatforms data)")
    case (Inl e)
    then obtain msg where "e = BadRequest msg" using mapPlatforms_error by blast
    then have "fst (createCampaign toLowerCase pub newId dflt data creator s) = Inl (BadRequest msg)"
      using Inl by (simp add: createCampaign_def)
    moreover have "\<exists>p \<in> set (dataPlatforms data). \<not> recognized toLowerCase p"
      using Inl mapPlatforms_Inl by blast
    ultimately show ?thesis by blast
  next
    case (Inr pfs)
    then have "\<not> (\<exists>p \<in> set (dataPlatforms data). \<not> recognized toLowerCase p)"
      using mapPlatforms_Inl[of toLowerCase "dataPlatforms data"] by auto
    then show ?thesis using createCampaign_valid_platforms[OF Inr] by blast
  qed
  have b: "\<forall>pfs. mapPlatforms toLowerCase (dataPlatforms data) = Inr pfs
         \<longrightarrow> list_all2 (recognizedAs toLowerCase) (dataPlatforms data) pfs"
    using mapPlatforms_Inr by blast
  have c: "(\<forall>t. isAscii t \<longrightarrow> toLowerCase t = asciiLowerCase t) \<longrightarrow>
         (\<forall>p q pl. isAscii p \<and> list_all2 sameLetter p q
            \<longrightarrow> (mapPlatform toLowerCase p = Inr pl \<longleftrightarrow> mapPlatform toLowerCase q = Inr pl))
         \<and> mapPlatform toLowerCase ''yt'' = Inr YOUTUBE
         \<and> mapPlatform toLowerCase ''x'' = Inr TWITTER"
  proof
    assume h: "\<forall>t. isAscii t \<longrightarrow> toLowerCase t = asciiLowerCase t"
    have "\<forall>p q pl. isAscii p \<and> list_all2 sameLetter p q
            \<longrightarrow> (mapPlatform toLowerCase p = Inr pl \<longleftrightarrow> mapPlatform toLowerCase q = Inr pl)"
      using mapPlatform_case_insensitive[OF h] by blast
    then show "(\<forall>p q pl. isAscii p \<and> list_all2 sameLetter p q
            \<longrightarrow> (mapPlatform toLowerCase p = Inr pl \<longleftrightarrow> mapPlatform toLowerCase q = Inr pl))
         \<and> mapPlatform toLowerCase ''yt'' = Inr YOUTUBE
         \<and> mapPlatform toLowerCase ''x'' = Inr TWITTER"
      using mapPlatform_aliases[OF h] by (rule conjI)
  qed
  from a b c show ?thesis by (intro conjI)
qed

theorem platforms_validated_witness:
  "(\<exists>p \<in> set (dataPlatforms dataBad). \<not> recognized kelvinLowerCase p)
   \<and> (\<exists>msg. fst (createCampaign kelvinLowerCase pubAll ''c2'' campaign0 dataBad alice store0)
               = Inl (BadRequest msg))
   \<and> mapPlatforms kelvinLowerCase [''yt'', ''X'', ''My TikTok'', kelvinTiktok]
       = Inr [YOUTUBE, TWITTER, TIKTOK, TIKTOK]
   \<and> list_all2 (recognizedAs kelvinLowerCase) [''yt'', ''X'', ''My TikTok'', kelvinTiktok]
        [YOUTUBE, TWITTER, TIKTOK, TIKTOK]
   \<and> isAscii ''YouTube'' \<and> list_all2 sameLetter ''YouTube'' ''yOUTUBE''
   \<and> mapPlatform kelvinLowerCase ''YouTube'' = Inr YOUTUBE
   \<and> mapPlatform kelvinLowerCase ''yOUTUBE'' = Inr YOUTUBE
   \<and> mapPlatform kelvinLowerCase ''yt'' = Inr YOUTUBE
   \<and> mapPlatform kelvinLowerCase ''x'' = Inr TWITTER"
proof -
  have h1: "\<exists>p \<in> set (dataPlatforms dataBad). \<not> recognized kelvinLowerCase p"
    by (simp add: dataBad_def recognized_def recognizedAs_def lowerChar_def
        str_includes_sublist[symmetric])
  have k: "kelvinLowerCase kelvinTiktok = ''tiktok''"
    unfolding kelvinTiktok_def by (simp add: lowerChar_def)
  have e1: "mapPlatform kelvinLowerCase ''yt'' = Inr YOUTUBE"
    by (simp add: mapPlatform_def lowerChar_def)
  have e2: "mapPlatform kelvinLowerCase ''X'' = Inr TWITTER"
    by (simp add: mapPlatform_def lowerChar_def)
  have e3: "mapPlatform kelvinLowerCase ''My TikTok'' = Inr TIKTOK"
    by (simp add: mapPlatform_def lowerChar_def)
  have e4: "mapPlatform kelvinLowerCase kelvinTiktok = Inr TIKTOK"
    by (simp add: mapPlatform_def k)
  have h2: "mapPlatforms kelvinLowerCase [''yt'', ''X'', ''My TikTok'', kelvinTiktok]
       = Inr [YOUTUBE, TWITTER, TIKTOK, TIKTOK]"
    by (simp add: e1 e2 e3 e4)
  have h3: "\<forall>t. isAscii t \<longrightarrow> kelvinLowerCase t = asciiLowerCase t"
    using kelvinLowerCase_ascii by blast
  have h4: "isAscii ''YouTube''" by (simp add: isAscii_def)
  have h5: "list_all2 sameLetter ''YouTube'' ''yOUTUBE''" by (simp add: sameLetter_def)
  have h6: "mapPlatform kelvinLowerCase ''YouTube'' = Inr YOUTUBE"
    by (simp add: mapPlatform_def lowerChar_def)
  let ?good = "dataBad\<lparr>dataPlatforms := [''yt'', ''X'', ''My TikTok'', kelvinTiktok]\<rparr>"
  have d: "dataPlatforms ?good = [''yt'', ''X'', ''My TikTok'', kelvinTiktok]" by simp
  note bad = platforms_validated
    [of kelvinLowerCase pubAll "''c2''" campaign0 dataBad alice store0]
  note good = platforms_validated
    [of kelvinLowerCase pubAll "''c2''" campaign0 ?good alice store0]
  from bad h1 have c1:
    "\<exists>msg. fst (createCampaign kelvinLowerCase pubAll ''c2'' campaign0 dataBad alice store0)
              = Inl (BadRequest msg)"
    by (elim conjE) simp
  from good have "\<forall>pfs. mapPlatforms kelvinLowerCase (dataPlatforms ?good) = Inr pfs
      \<longrightarrow> list_all2 (recognizedAs kelvinLowerCase) (dataPlatforms ?good) pfs" by (elim conjE)
  then have "mapPlatforms kelvinLowerCase (dataPlatforms ?good) = Inr [YOUTUBE, TWITTER, TIKTOK, TIKTOK]
      \<longrightarrow> list_all2 (recognizedAs kelvinLowerCase) (dataPlatforms ?good)
            [YOUTUBE, TWITTER, TIKTOK, TIKTOK]" by (rule spec)
  then have c2: "list_all2 (recognizedAs kelvinLowerCase) [''yt'', ''X'', ''My TikTok'', kelvinTiktok]
        [YOUTUBE, TWITTER, TIKTOK, TIKTOK]"
    unfolding d using h2 by (rule mp)
  from bad have "(\<forall>t. isAscii t \<longrightarrow> kelvinLowerCase t = asciiLowerCase t) \<longrightarrow>
         (\<forall>p q pl. isAscii p \<and> list_all2 sameLetter p q
            \<longrightarrow> (mapPlatform kelvinLowerCase p = Inr pl \<longleftrightarrow> mapPlatform kelvinLowerCase q = Inr pl))
         \<and> mapPlatform kelvinLowerCase ''yt'' = Inr YOUTUBE
         \<and> mapPlatform kelvinLowerCase ''x'' = Inr TWITTER" by (elim conjE)
  from this h3 have c: "(\<forall>p q pl. isAscii p \<and> list_all2 sameLetter p q
            \<longrightarrow> (mapPlatform kelvinLowerCase p = Inr pl \<longleftrightarrow> mapPlatform kelvinLowerCase q = Inr pl))
         \<and> mapPlatform kelvinLowerCase ''yt'' = Inr YOUTUBE
         \<and> mapPlatform kelvinLowerCase ''x'' = Inr TWITTER" by (rule mp)
  then have "isAscii ''YouTube'' \<and> list_all2 sameLetter ''YouTube'' ''yOUTUBE''
      \<longrightarrow> (mapPlatform kelvinLowerCase ''YouTube'' = Inr YOUTUBE
           \<longleftrightarrow> mapPlatform kelvinLowerCase ''yOUTUBE'' = Inr YOUTUBE)" by blast
  with h4 h5 h6 have c3: "mapPlatform kelvinLowerCase ''yOUTUBE'' = Inr YOUTUBE" by blast
  from c have c4: "mapPlatform kelvinLowerCase ''yt'' = Inr YOUTUBE"
    and c5: "mapPlatform kelvinLowerCase ''x'' = Inr TWITTER" by simp_all
  show ?thesis using h1 c1 h2 c2 h4 h5 h6 c3 c4 c5 by (intro conjI)
qed

subsection \<open>Waitlist questions\<close>

lemma createQuestions_result:
  "createQuestions k qs i created s =
     (Inr (created @ rowsFrom k i qs), s\<lparr>questions := questions s @ rowsFrom k i qs\<rparr>)"
proof (induction qs arbitrary: i created s)
  case Nil
  then show ?case by (simp add: rowsFrom_def)
next
  case (Cons q qs)
  show ?case
    by (simp add: Cons.IH Let_def rowsFrom_def nullish_def)
qed

lemma rowsFrom_key: "filter (\<lambda>row. fst row = j) (rowsFrom k i qs) = (if j = k then rowsFrom k i qs else [])"
  by (induction qs arbitrary: i) (auto simp: rowsFrom_def)

lemma deleteWhere_key:
  "filter (\<lambda>row. fst row = j) (deleteWhere (\<lambda>x. x = k) rows)
     = (if j = k then [] else filter (\<lambda>row. fst row = j) rows)"
  by (induction rows) (auto simp: deleteWhere_def)

lemma rowsFrom_Cons:
  "rowsFrom k i (q # qs) =
     (k, fst q, (case snd q of Some ord \<Rightarrow> ord | None \<Rightarrow> int i + 1)) # rowsFrom k (Suc i) qs"
  by (simp add: rowsFrom_def)

lemma rowsFrom_lower:
  "\<forall>q \<in> set qs. snd q = None \<Longrightarrow> \<forall>row \<in> set (rowsFrom k j qs). int j < snd (snd row)"
proof (induction qs arbitrary: j)
  case Nil
  then show ?case by (simp add: rowsFrom_def)
next
  case (Cons q qs)
  from Cons.prems have "\<forall>q \<in> set qs. snd q = None" by simp
  from Cons.IH[OF this, of "Suc j"] have "\<forall>row \<in> set (rowsFrom k (Suc j) qs). int j < snd (snd row)"
    by fastforce
  then show ?case using Cons.prems by (simp add: rowsFrom_Cons)
qed

lemma rowsFrom_sorted:
  "\<forall>q \<in> set qs. snd q = None \<Longrightarrow> sorted (map (\<lambda>row. snd (snd row)) (rowsFrom k i qs))"
proof (induction qs arbitrary: i)
  case Nil
  then show ?case by (simp add: rowsFrom_def)
next
  case (Cons q qs)
  from Cons.prems have n: "\<forall>q \<in> set qs. snd q = None" by simp
  from rowsFrom_lower[OF n, of k "Suc i"]
  have "\<forall>row \<in> set (rowsFrom k (Suc i) qs). int i + 1 \<le> snd (snd row)"
    by fastforce
  moreover have "sorted (map (\<lambda>row. snd (snd row)) (rowsFrom k (Suc i) qs))"
    using Cons.IH[OF n] by simp
  ultimately show ?case using Cons.prems by (simp add: rowsFrom_Cons)
qed

text \<open>
  C8. \<open>setWaitlistQuestions\<close> by the creator or by staff returns the supplied
  questions with their orders (the explicit order, else the 1-based position); listing
  the campaign's questions afterwards gives exactly these rows, sorted by order, with no
  row of an earlier call; without explicit orders the listing is the input in its own
  order; and the questions of other campaigns are untouched.
\<close>

theorem setQuestions_roundtrip:
  assumes "getParticipantRole s k (userId user) = Some CREATOR \<or> isStaff user"
  shows "fst (setWaitlistQuestions k qs user s) = Inr (assignOrders k qs)
       \<and> getWaitlistQuestions (snd (setWaitlistQuestions k qs user s)) k
           = sort_key (\<lambda>row. snd (snd row)) (assignOrders k qs)
       \<and> mset (getWaitlistQuestions (snd (setWaitlistQuestions k qs user s)) k)
           = mset (assignOrders k qs)
       \<and> sorted (map (\<lambda>row. snd (snd row))
                   (getWaitlistQuestions (snd (setWaitlistQuestions k qs user s)) k))
       \<and> ((\<forall>q \<in> set qs. snd q = None) \<longrightarrow>
            getWaitlistQuestions (snd (setWaitlistQuestions k qs user s)) k = assignOrders k qs)
       \<and> (\<forall>j. j \<noteq> k \<longrightarrow>
            getWaitlistQuestions (snd (setWaitlistQuestions k qs user s)) j
              = getWaitlistQuestions s j)"
proof -
  let ?s' = "snd (setWaitlistQuestions k qs user s)"
  have a: "assignOrders k qs = rowsFrom k 0 qs" by (simp add: assignOrders_def rowsFrom_def)
  have r: "setWaitlistQuestions k qs user s =
      (Inr (rowsFrom k 0 qs),
       s\<lparr>questions := deleteWhere (\<lambda>x. x = k) (questions s) @ rowsFrom k 0 qs\<rparr>)"
    using assms by (auto simp: setWaitlistQuestions_def Let_def createQuestions_result)
  have g: "getWaitlistQuestions ?s' k = sort_key (\<lambda>row. snd (snd row)) (rowsFrom k 0 qs)"
    by (simp add: r getWaitlistQuestions_def rowsFrom_key deleteWhere_key)
  have o: "\<And>j. j \<noteq> k \<Longrightarrow> getWaitlistQuestions ?s' j = getWaitlistQuestions s j"
    by (simp add: r getWaitlistQuestions_def rowsFrom_key deleteWhere_key)
  have e: "(\<forall>q \<in> set qs. snd q = None) \<longrightarrow> getWaitlistQuestions ?s' k = rowsFrom k 0 qs"
    unfolding g using rowsFrom_sorted[of qs k 0] by (simp add: sort_key_id_if_sorted)
  show ?thesis
    unfolding a using g o e by (simp add: r)
qed

theorem setQuestions_roundtrip_witness:
  "getParticipantRole storeQ ''c1'' (userId alice) = Some CREATOR
   \<and> map (\<lambda>row. fst (snd row))
        (getWaitlistQuestions
           (snd (setWaitlistQuestions ''c1'' [(''Why?'', None), (''Where?'', None)] alice storeQ)) ''c1'')
       = [''Why?'', ''Where?'']
   \<and> map (\<lambda>row. fst (snd row))
        (getWaitlistQuestions
           (snd (setWaitlistQuestions ''c1'' [(''Second'', Some 7), (''First'', None)] alice storeQ)) ''c1'')
       = [''First'', ''Second'']
   \<and> getWaitlistQuestions
        (snd (setWaitlistQuestions ''c1'' [(''Why?'', None), (''Where?'', None)] alice storeQ)) ''w1''
       = [(''w1'', ''Other campaign'', 1)]"
proof -
  have h: "getParticipantRole storeQ ''c1'' (userId alice) = Some CREATOR"
    by (simp add: storeQ_def store_ops examples)
  have n: "\<forall>q \<in> set [(''Why?'', None), (''Where?'', None :: int option)]. snd q = None" by simp
  note t1 = setQuestions_roundtrip [OF disjI1 [OF h], of "[(''Why?'', None), (''Where?'', None)]"]
  note t2 = setQuestions_roundtrip [OF disjI1 [OF h], of "[(''Second'', Some 7), (''First'', None)]"]
  from t1 n have "getWaitlistQuestions
           (snd (setWaitlistQuestions ''c1'' [(''Why?'', None), (''Where?'', None)] alice storeQ)) ''c1''
        = assignOrders ''c1'' [(''Why?'', None), (''Where?'', None)]" by blast
  then have c1: "map (\<lambda>row. fst (snd row))
        (getWaitlistQuestions
           (snd (setWaitlistQuestions ''c1'' [(''Why?'', None), (''Where?'', None)] alice storeQ)) ''c1'')
       = [''Why?'', ''Where?'']"
    by (simp add: assignOrders_def)
  from t2 have "getWaitlistQuestions
           (snd (setWaitlistQuestions ''c1'' [(''Second'', Some 7), (''First'', None)] alice storeQ)) ''c1''
        = sort_key (\<lambda>row. snd (snd row)) (assignOrders ''c1'' [(''Second'', Some 7), (''First'', None)])"
    by blast
  then have c2: "map (\<lambda>row. fst (snd row))
        (getWaitlistQuestions
           (snd (setWaitlistQuestions ''c1'' [(''Second'', Some 7), (''First'', None)] alice storeQ)) ''c1'')
       = [''First'', ''Second'']"
    by (simp add: assignOrders_def)
  have w: "''w1'' \<noteq> ''c1''" by simp
  from t1 have "\<forall>j. j \<noteq> ''c1'' \<longrightarrow> getWaitlistQuestions
        (snd (setWaitlistQuestions ''c1'' [(''Why?'', None), (''Where?'', None)] alice storeQ)) j
       = getWaitlistQuestions storeQ j" by (elim conjE)
  then have "''w1'' \<noteq> ''c1'' \<longrightarrow> getWaitlistQuestions
        (snd (setWaitlistQuestions ''c1'' [(''Why?'', None), (''Where?'', None)] alice storeQ)) ''w1''
       = getWaitlistQuestions storeQ ''w1''" by (rule spec)
  from this w have "getWaitlistQuestions
        (snd (setWaitlistQuestions ''c1'' [(''Why?'', None), (''Where?'', None)] alice storeQ)) ''w1''
       = getWaitlistQuestions storeQ ''w1''" by (rule mp)
  then have c3: "getWaitlistQuestions
        (snd (setWaitlistQuestions ''c1'' [(''Why?'', None), (''Where?'', None)] alice storeQ)) ''w1''
       = [(''w1'', ''Other campaign'', 1)]"
    by (simp add: getWaitlistQuestions_def storeQ_def)
  show ?thesis using h c1 c2 c3 by blast
qed

subsection \<open>Joining an AUTO_JOIN campaign\<close>

lemma joinCampaign_auto:
  assumes c: "campaign_findUnique s k = Some c" and a: "status c = ACTIVE"
    and t: "campaignType c = AUTO_JOIN"
    and np: "participant_findUnique s k (userId u) = None"
    and nb: "ban_findUnique s k (userId u) = None"
    and p: "pub (EvParticipantJoined k (userId u) MEMBER DIRECT)"
  shows "joinCampaign pub k u ans s =
     (if participant_count s k \<ge> editorSlots c
      then (Inl (Forbidden ''Campaign is full''), s)
      else (Inr (MEMBER, AUTO_JOIN),
            s\<lparr>participants := participants s @ [((k, userId u), MEMBER)],
              outbox := outbox s @ [EvParticipantJoined k (userId u) MEMBER DIRECT]\<rparr>))"
proof -
  have m: "map_of (participants s) (k, userId u) = None"
    using np by (simp add: participant_findUnique_def)
  show ?thesis
    using assms m
    by (cases ans)
       (simp_all add: joinCampaign_def Let_def andThen_def return_def participant_create_def
         publish_def)
qed

lemma map_upt_Suc_shift: "map f [0..<Suc n] = f 0 # map (\<lambda>i. f (Suc i)) [0..<n]"
  by (simp add: upt_conv_Cons map_Suc_upt[symmetric] del: upt_Suc)

lemma joinAll_auto:
  assumes "campaign_findUnique s k = Some c" and "status c = ACTIVE"
    and "campaignType c = AUTO_JOIN"
    and "distinct (map (\<lambda>j. userId (fst j)) js)"
    and "\<forall>j \<in> set js. participant_findUnique s k (userId (fst j)) = None
                      \<and> ban_findUnique s k (userId (fst j)) = None"
    and "\<forall>e. pub e"
  shows "fst (joinAll pub k js s) =
           map (\<lambda>i. if participant_count s k + int i < editorSlots c
                     then Inr (MEMBER, AUTO_JOIN)
                     else Inl (Forbidden ''Campaign is full'')) [0..<length js]
       \<and> participants (snd (joinAll pub k js s)) =
           participants s @ map (\<lambda>j. ((k, userId (fst j)), MEMBER))
                              (take (nat (editorSlots c - participant_count s k)) js)"
  using assms
proof (induction js arbitrary: s)
  case Nil
  then show ?case by simp
next
  case (Cons j js)
  let ?n = "participant_count s k"
  have np: "participant_findUnique s k (userId (fst j)) = None"
    and nb: "ban_findUnique s k (userId (fst j)) = None"
    using Cons.prems(5) by simp_all
  have p: "pub (EvParticipantJoined k (userId (fst j)) MEMBER DIRECT)"
    using Cons.prems(6) by simp
  note jc = joinCampaign_auto[where pub = pub and ans = "snd j", OF Cons.prems(1,2,3) np nb p]
  have d: "distinct (map (\<lambda>j. userId (fst j)) js)" using Cons.prems(4) by simp
  show ?case
  proof (cases "?n \<ge> editorSlots c")
    case True
    have rest: "\<forall>j \<in> set js. participant_findUnique s k (userId (fst j)) = None
                      \<and> ban_findUnique s k (userId (fst j)) = None"
      using Cons.prems(5) by simp
    note ih = Cons.IH[OF Cons.prems(1,2,3) d rest Cons.prems(6)]
    have t0: "nat (editorSlots c - ?n) = 0" using True by simp
    have f: "\<And>i. \<not> (?n + int i < editorSlots c)" using True by simp
    show ?thesis
      using True ih
      by (simp add: jc split_beta t0 f map_upt_Suc_shift del: upt_Suc)
  next
    case False
    let ?s1 = "s\<lparr>participants := participants s @ [((k, userId (fst j)), MEMBER)],
              outbox := outbox s @ [EvParticipantJoined k (userId (fst j)) MEMBER DIRECT]\<rparr>"
    have c1: "campaign_findUnique ?s1 k = Some c"
      using Cons.prems(1) by (simp add: campaign_findUnique_def)
    have n1: "participant_count ?s1 k = ?n + 1"
      by (simp add: participant_count_def)
    have rest: "\<forall>j' \<in> set js. participant_findUnique ?s1 k (userId (fst j')) = None
                      \<and> ban_findUnique ?s1 k (userId (fst j')) = None"
    proof
      fix j' assume j': "j' \<in> set js"
      then have "userId (fst j') \<in> (\<lambda>j. userId (fst j)) ` set js" by (rule imageI)
      moreover have "userId (fst j) \<notin> (\<lambda>j. userId (fst j)) ` set js"
        using Cons.prems(4) by simp
      ultimately have "userId (fst j') \<noteq> userId (fst j)" by metis
      moreover have "participant_findUnique s k (userId (fst j')) = None"
        "ban_findUnique s k (userId (fst j')) = None"
        using Cons.prems(5) j' by simp_all
      ultimately show "participant_findUnique ?s1 k (userId (fst j')) = None
                      \<and> ban_findUnique ?s1 k (userId (fst j')) = None"
        by (simp add: participant_findUnique_def ban_findUnique_def map_add_def[symmetric]
            map_add_Some_iff)
    qed
    note ih = Cons.IH[OF c1 Cons.prems(2,3) d rest Cons.prems(6)]
    have t1: "nat (editorSlots c - ?n) = Suc (nat (editorSlots c - (?n + 1)))"
      using False by simp
    have sh: "\<And>i. (?n + 1 + int i < editorSlots c) = (?n + int (Suc i) < editorSlots c)"
      by (simp add: add.assoc)
    have h0: "?n + int 0 < editorSlots c" using False by simp
    show ?thesis
      using False ih h0
      by (simp add: jc split_beta n1 t1 sh map_upt_Suc_shift del: upt_Suc of_nat_Suc)
  qed
qed

lemma count_zero_lookup:
  "participant_count s k = 0 \<Longrightarrow> map_of (participants s) (k, u) = None"
proof -
  assume "participant_count s k = 0"
  then have "filter (\<lambda>(key, r). fst key = k) (participants s) = []"
    by (simp add: participant_count_def)
  then have "\<forall>row \<in> set (participants s). fst (fst row) \<noteq> k"
    by (auto simp: filter_empty_conv)
  then have "(k, u) \<notin> fst ` set (participants s)" by force
  then show ?thesis by (simp add: map_of_eq_None_iff)
qed

lemma prizes_step:
  "\<exists>pd. (if b then createPrizes k ranks 0 else return ()) s
          = (Inr (), s\<lparr>prizeDistributions := pd\<rparr>)"
proof (cases b)
  case True
  then show ?thesis using createPrizes_result[of k ranks 0 s] by simp
next
  case False
  have "return () s = (Inr (), s\<lparr>prizeDistributions := prizeDistributions s\<rparr>)"
    by (simp add: return_def)
  then have "\<exists>pd. return () s = (Inr (), s\<lparr>prizeDistributions := pd\<rparr>)" by (rule exI)
  then show ?thesis using False by simp
qed

lemma invites_step:
  "\<exists>iv. (if b then createInvites k us else return ()) s = (Inr (), s\<lparr>invites := iv\<rparr>)"
proof (cases b)
  case True
  then show ?thesis using createInvites_result[of k us s] by simp
next
  case False
  have "return () s = (Inr (), s\<lparr>invites := invites s\<rparr>)"
    by (simp add: return_def)
  then have "\<exists>iv. return () s = (Inr (), s\<lparr>invites := iv\<rparr>)" by (rule exI)
  then show ?thesis using False by simp
qed

lemma createCampaign_result:
  assumes pf: "mapPlatforms toLowerCase (dataPlatforms data) = Inr pfs"
    and fresh: "campaign_findUnique s0 newId = None"
    and rows: "participant_count s0 newId = 0"
    and p: "\<forall>e. pub e"
    and c: "c = dflt\<lparr>title := dataTitle data,
                     platforms := pfs,
                     startDate := dataStartDate data,
                     endDate := dataEndDate data,
                     totalBudget := nullish (dataTotalBudget data) 0,
                     campaignType := nullish (dataCampaignType data) AUTO_JOIN,
                     editorSlots := nullish (dataEditorSlots data) 5,
                     enableLeaderboard := nullish (dataEnableLeaderboard data) False,
                     isPrivate := nullish (dataIsPrivate data) False,
                     createdBy := userId creator,
                     studioId := dataStudioId data,
                     published := False\<rparr>"
  shows "\<exists>pd iv ob. createCampaign toLowerCase pub newId dflt data creator s0 =
           (Inr c,
            s0\<lparr>campaigns := campaigns s0 @ [(newId, c)],
               participants := participants s0 @ [((newId, userId creator), CREATOR)],
               prizeDistributions := pd, invites := iv, outbox := ob\<rparr>)"
proof -
  let ?sB = "s0\<lparr>campaigns := campaigns s0 @ [(newId, c)],
               participants := participants s0 @ [((newId, userId creator), CREATOR)]\<rparr>"
  let ?prizes = "if dataEnableLeaderboard data = Some True
                        \<and> nullish (dataLeaderboardRanks data) [] \<noteq> []
                     then createPrizes newId (nullish (dataLeaderboardRanks data) []) 0
                     else return ()"
  let ?invites = "if dataIsPrivate data = Some True
                        \<and> nullish (dataInvitedUsers data) [] \<noteq> []
                     then createInvites newId (nullish (dataInvitedUsers data) [])
                     else return ()"
  obtain pd where pd: "?prizes ?sB = (Inr (), ?sB\<lparr>prizeDistributions := pd\<rparr>)"
    using prizes_step[of _ newId "nullish (dataLeaderboardRanks data) []" ?sB] by blast
  let ?sC = "?sB\<lparr>prizeDistributions := pd\<rparr>"
  obtain iv where iv: "?invites ?sC = (Inr (), ?sC\<lparr>invites := iv\<rparr>)"
    using invites_step[of _ newId "nullish (dataInvitedUsers data) []" ?sC] by blast
  have m1: "map_of (campaigns s0) newId = None"
    using fresh by (simp add: campaign_findUnique_def)
  have m2: "map_of (participants s0) (newId, userId creator) = None"
    using rows by (rule count_zero_lookup)
  have s1: "campaign_create newId c s0 = (Inr c, s0\<lparr>campaigns := campaigns s0 @ [(newId, c)]\<rparr>)"
    using m1 by (simp add: campaign_create_def)
  have s2: "participant_create newId (userId creator) CREATOR
              (s0\<lparr>campaigns := campaigns s0 @ [(newId, c)]\<rparr>) = (Inr (), ?sB)"
    using m2 by (simp add: participant_create_def)
  have "createCampaign toLowerCase pub newId dflt data creator s0 =
           (Inr c, ?sC\<lparr>invites := iv,
               outbox := outbox s0 @ [EvCreated newId (userId creator) (title c) (status c) (studioId c)]\<rparr>)"
    unfolding createCampaign_def pf sum.case c[symmetric]
    using p by (simp add: andThen_def s1 s2 pd iv publish_def return_def)
  then show ?thesis by auto
qed

lemma updateCampaign_by_creator:
  assumes c: "campaign_findUnique s k = Some c"
    and cr: "participant_findUnique s k (userId user) = Some CREATOR"
    and np: "patchPrizeDistributions data = None"
    and p: "\<forall>e. pub e"
  shows "\<exists>ob. updateCampaign pub k data user s =
           (Inr (applyPatch data c),
            s\<lparr>campaigns := updateWhere (\<lambda>j. j = k) (applyPatch data) (campaigns s),
              outbox := ob\<rparr>)"
proof -
  have m: "map_of (campaigns s) k = Some c" using c by (simp add: campaign_findUnique_def)
  have g: "getCampaign s k = Inr (c, map_of (permissionsTable s) k)"
    using c by (simp add: getCampaign_def)
  let ?s1 = "s\<lparr>campaigns := updateWhere (\<lambda>j. j = k) (applyPatch data) (campaigns s)\<rparr>"
  let ?ob = "case patchStatus data of
               None \<Rightarrow> outbox s
             | Some newStatus \<Rightarrow>
                 if newStatus \<noteq> status c
                 then outbox s @ [EvStatusChanged k (status c) newStatus (userId user)]
                 else outbox s"
  have "updateCampaign pub k data user s = (Inr (applyPatch data c), ?s1\<lparr>outbox := ?ob\<rparr>)"
    unfolding updateCampaign_def g
    using cr np p m
    by (cases "patchStatus data")
       (simp_all add: Let_def andThen_def campaign_update_def publish_def return_def)
  then show ?thesis by (rule exI)
qed

text \<open>
  C1, amended. For an AUTO_JOIN campaign created with \<open>editorSlots = N\<close> in a store
  that has no row for its identifier, then set to ACTIVE by its creator, with a publisher
  that accepts every event: among successive joins by distinct, unbanned users other than
  the creator, join number \<open>i\<close> (counted from 0) succeeds with the role MEMBER exactly
  when \<open>1 + i < N\<close>, and fails Forbidden (full) otherwise. The creator's row takes one
  slot: the first \<open>N - 1\<close> joins each insert a MEMBER row and every later one is
  refused.
\<close>

theorem auto_join_capacity:
  assumes fresh: "campaign_findUnique s0 newId = None"
    and rows: "participant_count s0 newId = 0"
    and pf: "mapPlatforms toLowerCase (dataPlatforms data) = Inr pfs"
    and ty: "dataCampaignType data = None \<or> dataCampaignType data = Some AUTO_JOIN"
    and slots: "dataEditorSlots data = Some N"
    and p: "\<forall>e. pub e"
    and d: "distinct (map (\<lambda>j. userId (fst j)) joins)"
    and others: "userId creator \<notin> set (map (\<lambda>j. userId (fst j)) joins)"
    and nb: "\<forall>j \<in> set joins. ban_findUnique s0 newId (userId (fst j)) = None"
  shows "fst (joinAll pub newId joins
                (snd (updateCampaign pub newId activatePatch creator
                        (snd (createCampaign toLowerCase pub newId dflt data creator s0))))) =
           map (\<lambda>i. if 1 + int i < N then Inr (MEMBER, AUTO_JOIN)
                     else Inl (Forbidden ''Campaign is full'')) [0..<length joins]
       \<and> participants (snd (joinAll pub newId joins
                (snd (updateCampaign pub newId activatePatch creator
                        (snd (createCampaign toLowerCase pub newId dflt data creator s0)))))) =
           participants s0 @ [((newId, userId creator), CREATOR)]
             @ map (\<lambda>j. ((newId, userId (fst j)), MEMBER)) (take (nat (N - 1)) joins)"
proof -
  define c where "c = dflt\<lparr>title := dataTitle data,
                     platforms := pfs,
                     startDate := dataStartDate data,
                     endDate := dataEndDate data,
                     totalBudget := nullish (dataTotalBudget data) 0,
                     campaignType := nullish (dataCampaignType data) AUTO_JOIN,
                     editorSlots := nullish (dataEditorSlots data) 5,
                     enableLeaderboard := nullish (dataEnableLeaderboard data) False,
                     isPrivate := nullish (dataIsPrivate data) False,
                     createdBy := userId creator,
                     studioId := dataStudioId data,
                     published := False\<rparr>"
  from createCampaign_result[OF pf fresh rows p c_def]
  obtain pd iv ob where cc: "createCampaign toLowerCase pub newId dflt data creator s0 =
           (Inr c,
            s0\<lparr>campaigns := campaigns s0 @ [(newId, c)],
               participants := participants s0 @ [((newId, userId creator), CREATOR)],
               prizeDistributions := pd, invites := iv, outbox := ob\<rparr>)" by blast
  let ?s1 = "s0\<lparr>campaigns := campaigns s0 @ [(newId, c)],
               participants := participants s0 @ [((newId, userId creator), CREATOR)],
               prizeDistributions := pd, invites := iv, outbox := ob\<rparr>"
  have m1: "map_of (campaigns s0) newId = None"
    using fresh by (simp add: campaign_findUnique_def)
  have l1: "campaign_findUnique ?s1 newId = Some c"
    by (simp add: campaign_findUnique_def map_add_def[symmetric] map_add_Some_iff m1)
  have r1: "participant_findUnique ?s1 newId (userId creator) = Some CREATOR"
    by (simp add: participant_findUnique_def map_add_def[symmetric] map_add_Some_iff
        count_zero_lookup[OF rows])
  have np: "patchPrizeDistributions activatePatch = None"
    by (simp add: activatePatch_def emptyPatch_def)
  from updateCampaign_by_creator[OF l1 r1 np p]
  obtain ob2 where uc: "updateCampaign pub newId activatePatch creator ?s1 =
           (Inr (applyPatch activatePatch c),
            ?s1\<lparr>campaigns := updateWhere (\<lambda>j. j = newId) (applyPatch activatePatch) (campaigns ?s1),
              outbox := ob2\<rparr>)" by blast
  let ?s2 = "?s1\<lparr>campaigns := updateWhere (\<lambda>j. j = newId) (applyPatch activatePatch) (campaigns ?s1),
              outbox := ob2\<rparr>"
  let ?c2 = "applyPatch activatePatch c"
  have l2: "campaign_findUnique ?s2 newId = Some ?c2"
    using l1 by (simp add: campaign_findUnique_def map_of_updateWhere)
  have st: "status ?c2 = ACTIVE"
    by (simp add: applyPatch_def activatePatch_def emptyPatch_def nullish_def)
  have ct: "campaignType ?c2 = AUTO_JOIN"
    using ty by (auto simp: applyPatch_def activatePatch_def emptyPatch_def nullish_def c_def)
  have es: "editorSlots ?c2 = N"
    using slots by (simp add: applyPatch_def activatePatch_def emptyPatch_def nullish_def c_def)
  have cnt: "participant_count ?s2 newId = 1"
    using rows by (simp add: participant_count_def)
  have rest: "\<forall>j \<in> set joins. participant_findUnique ?s2 newId (userId (fst j)) = None
                      \<and> ban_findUnique ?s2 newId (userId (fst j)) = None"
  proof
    fix j assume j: "j \<in> set joins"
    then have "userId (fst j) \<in> (\<lambda>j. userId (fst j)) ` set joins" by (rule imageI)
    moreover have "userId creator \<notin> (\<lambda>j. userId (fst j)) ` set joins"
      using others by simp
    ultimately have ne: "userId (fst j) \<noteq> userId creator" by metis
    have "ban_findUnique s0 newId (userId (fst j)) = None" using nb j by simp
    then show "participant_findUnique ?s2 newId (userId (fst j)) = None
                      \<and> ban_findUnique ?s2 newId (userId (fst j)) = None"
      using ne by (simp add: participant_findUnique_def ban_findUnique_def
          map_add_def[symmetric] map_add_Some_iff count_zero_lookup[OF rows])
  qed
  note ja = joinAll_auto[OF l2 st ct d rest p]
  have ps: "participants ?s2 = participants s0 @ [((newId, userId creator), CREATOR)]" by simp
  have sh: "\<And>i. (participant_count ?s2 newId + int i < editorSlots ?c2) = (1 + int i < N)"
    unfolding cnt es by simp
  show ?thesis
    unfolding cc uc snd_conv
    using ja unfolding sh es cnt ps by simp
qed

text \<open>
  C1, as stated, fails: \<open>createCampaign\<close> inserts the creator as a participant and the
  capacity test of \<open>joinCampaign\<close> counts every participant row. On the active
  AUTO_JOIN campaign \<open>c2\<close> created with one slot, whose only participant is its
  creator, the first join of an unbanned user is refused as full.
\<close>

theorem one_slot_first_join_full:
  "map_option status (campaign_findUnique storeActive ''c2'') = Some ACTIVE
   \<and> map_option campaignType (campaign_findUnique storeActive ''c2'') = Some AUTO_JOIN
   \<and> map_option editorSlots (campaign_findUnique storeActive ''c2'') = Some 1
   \<and> participants storeActive = [((''c2'', ''alice''), CREATOR)]
   \<and> ban_findUnique storeActive ''c2'' (userId bob) = None
   \<and> fst (joinCampaign pubAll ''c2'' bob None storeActive) = Inl (Forbidden ''Campaign is full'')"
proof -
  have c: "snd (createCampaign asciiLowerCase pubAll ''c2'' draftDefaults dataOne alice emptyStore) =
      emptyStore\<lparr>campaigns := [(''c2'', draftDefaults\<lparr>title := ''Spring'', platforms := [TIKTOK],
          startDate := 0, endDate := 90, totalBudget := 0, campaignType := AUTO_JOIN,
          editorSlots := 1, enableLeaderboard := False, isPrivate := False,
          createdBy := ''alice'', studioId := None, published := False\<rparr>)],
        participants := [((''c2'', ''alice''), CREATOR)],
        outbox := [EvCreated ''c2'' ''alice'' ''Spring'' DRAFT None]\<rparr>"
    by (simp add: createCampaign_def dataOne_def dataBad_def emptyStore_def draftDefaults_def
        mapPlatform_def asciiLowerCase_def lowerChar_def store_ops examples)
  have a: "storeActive =
      emptyStore\<lparr>campaigns := [(''c2'', draftDefaults\<lparr>title := ''Spring'', platforms := [TIKTOK],
          startDate := 0, endDate := 90, totalBudget := 0, campaignType := AUTO_JOIN,
          editorSlots := 1, enableLeaderboard := False, isPrivate := False,
          createdBy := ''alice'', studioId := None, published := False, status := ACTIVE\<rparr>)],
        participants := [((''c2'', ''alice''), CREATOR)],
        outbox := [EvCreated ''c2'' ''alice'' ''Spring'' DRAFT None,
                   EvStatusChanged ''c2'' DRAFT ACTIVE ''alice'']\<rparr>"
    unfolding storeActive_def c
    by (simp add: updateCampaign_def activatePatch_def emptyPatch_def applyPatch_def
        emptyStore_def draftDefaults_def store_ops examples)
  show ?thesis
    unfolding a
    by (simp add: joinCampaign_def bob_def emptyStore_def draftDefaults_def store_ops examples)
qed

theorem auto_join_capacity_witness:
  "campaign_findUnique emptyStore ''c2'' = None
   \<and> participant_count emptyStore ''c2'' = 0
   \<and> mapPlatforms asciiLowerCase (dataPlatforms dataThree) = Inr [TIKTOK]
   \<and> dataCampaignType dataThree = None
   \<and> dataEditorSlots dataThree = Some 3
   \<and> fst (joinAll pubAll ''c2'' [(bob, None), (mallory, None), (carol, None)]
             (snd (updateCampaign pubAll ''c2'' activatePatch alice
                     (snd (createCampaign asciiLowerCase pubAll ''c2'' draftDefaults dataThree alice emptyStore)))))
       = [Inr (MEMBER, AUTO_JOIN), Inr (MEMBER, AUTO_JOIN), Inl (Forbidden ''Campaign is full'')]"
proof -
  have h1: "campaign_findUnique emptyStore ''c2'' = None"
    by (simp add: emptyStore_def store_ops)
  have h2: "participant_count emptyStore ''c2'' = 0"
    by (simp add: emptyStore_def store_ops)
  have h3: "mapPlatforms asciiLowerCase (dataPlatforms dataThree) = Inr [TIKTOK]"
    by (simp add: dataThree_def dataOne_def dataBad_def mapPlatform_def asciiLowerCase_def
        lowerChar_def)
  have h4: "dataCampaignType dataThree = None"
    by (simp add: dataThree_def dataOne_def dataBad_def)
  have h5: "dataEditorSlots dataThree = Some 3"
    by (simp add: dataThree_def dataOne_def dataBad_def)
  have h6: "\<forall>e. pubAll e" by (simp add: pubAll_def)
  have h7: "distinct (map (\<lambda>j. userId (fst j))
              [(bob, None :: (string \<times> string) list option), (mallory, None), (carol, None)])"
    by (simp add: bob_def mallory_def carol_def)
  have h8: "userId alice \<notin> set (map (\<lambda>j. userId (fst j))
              [(bob, None :: (string \<times> string) list option), (mallory, None), (carol, None)])"
    by (simp add: alice_def bob_def mallory_def carol_def)
  have h9: "\<forall>j \<in> set [(bob, None :: (string \<times> string) list option), (mallory, None), (carol, None)].
              ban_findUnique emptyStore ''c2'' (userId (fst j)) = None"
    by (simp add: emptyStore_def store_ops)
  have u: "[0..<length [(bob, None :: (string \<times> string) list option), (mallory, None), (carol, None)]]
             = [0, 1, 2]"
    by (simp add: upt_conv_Cons)
  from auto_join_capacity [where dflt = draftDefaults, OF h1 h2 h3 disjI1 [OF h4] h5 h6 h7 h8 h9]
  have "fst (joinAll pubAll ''c2'' [(bob, None), (mallory, None), (carol, None)]
             (snd (updateCampaign pubAll ''c2'' activatePatch alice
                     (snd (createCampaign asciiLowerCase pubAll ''c2'' draftDefaults dataThree alice emptyStore)))))
       = map (\<lambda>i. if 1 + int i < 3 then Inr (MEMBER, AUTO_JOIN)
                     else Inl (Forbidden ''Campaign is full'')) [0, 1, 2]"
    unfolding u by blast
  then show ?thesis using h1 h2 h3 h4 h5 by simp
qed

end
